theory Spec2Isabelle
  imports Main
begin

section \<open>Exceptions\<close>

text \<open>
  The Python exceptions the program can meet. \<open>ValueError\<close> carries its message, because
  \<open>input_error\<close> puts \<open>str(e)\<close> into the string it returns. \<open>IndexError\<close> and
  \<open>KeyError\<close> are the other two classes \<open>input_error\<close> catches; \<open>OverflowError\<close> is what
  date arithmetic raises when it leaves the range of \<open>datetime\<close>, and nothing catches it.
\<close>

datatype exn = ValueError string | IndexError | KeyError | OverflowError

section \<open>Strings\<close>

text \<open>
  A Python \<open>str\<close> is a sequence of code points. The model is \<open>string\<close>, one \<open>char\<close> per
  code point, so it covers the strings whose code points are below 256 (Latin-1); the
  character predicates below are Python's, restricted to that range.
\<close>

definition is_decimal_char :: "char \<Rightarrow> bool" where
  \<comment> \<open>the ten decimal digits \<open>0\<close>..\<open>9\<close>; what the regular expression \<open>\d\<close> matches\<close>
  "is_decimal_char ch = (48 \<le> (of_char ch :: nat) \<and> (of_char ch :: nat) \<le> 57)"

definition isdigit_char :: "char \<Rightarrow> bool" where
  \<comment> \<open>\<open>str.isdigit\<close> on one character: Numeric_Type Decimal or Digit, which below 256 is
      the decimal digits and the superscripts two, three (0xB2, 0xB3) and one (0xB9)\<close>
  "isdigit_char ch =
     (is_decimal_char ch \<or> (of_char ch :: nat) = 178 \<or> (of_char ch :: nat) = 179
        \<or> (of_char ch :: nat) = 185)"

definition isdigit :: "string \<Rightarrow> bool" where
  \<comment> \<open>\<open>str.isdigit\<close>: at least one character and every character a digit\<close>
  "isdigit s = (s \<noteq> [] \<and> list_all isdigit_char s)"

definition isspace_char :: "char \<Rightarrow> bool" where
  \<comment> \<open>\<open>str.isspace\<close> on one character, below 256\<close>
  "isspace_char ch =
     (let k = (of_char ch :: nat)
      in (9 \<le> k \<and> k \<le> 13) \<or> (28 \<le> k \<and> k \<le> 32) \<or> k = 133 \<or> k = 160)"

definition lower_char :: "char \<Rightarrow> char" where
  \<comment> \<open>\<open>str.lower\<close> on one character, below 256\<close>
  "lower_char ch =
     (let k = (of_char ch :: nat)
      in if (65 \<le> k \<and> k \<le> 90) \<or> (192 \<le> k \<and> k \<le> 222 \<and> k \<noteq> 215)
         then char_of (k + 32) else ch)"

definition str_lower :: "string \<Rightarrow> string" where
  "str_lower s = map lower_char s"

definition str_strip :: "string \<Rightarrow> string" where
  \<comment> \<open>\<open>str.strip()\<close>: white space removed at both ends\<close>
  "str_strip s = rev (dropWhile isspace_char (rev (dropWhile isspace_char s)))"

fun split_words :: "string \<Rightarrow> string \<Rightarrow> string list" where
  \<comment> \<open>the word being read, then the rest of the line\<close>
  "split_words w [] = (if w = [] then [] else [w])"
| "split_words w (ch # s) =
     (if isspace_char ch then (if w = [] then split_words [] s else w # split_words [] s)
      else split_words (w @ [ch]) s)"

definition str_split :: "string \<Rightarrow> string list" where
  \<comment> \<open>\<open>str.split()\<close> with no separator: the maximal runs of non-space characters\<close>
  "str_split s = split_words [] s"

fun split_at :: "char \<Rightarrow> string \<Rightarrow> string \<Rightarrow> string list" where
  \<comment> \<open>the pieces of a string between the occurrences of one character\<close>
  "split_at sep w [] = [w]"
| "split_at sep w (ch # s) =
     (if ch = sep then w # split_at sep [] s else split_at sep (w @ [ch]) s)"

definition char_between :: "char \<Rightarrow> char \<Rightarrow> char \<Rightarrow> bool" where
  \<comment> \<open>a character class \<open>[lo-hi]\<close> of a regular expression\<close>
  "char_between lo hi ch =
     ((of_char lo :: nat) \<le> of_char ch \<and> (of_char ch :: nat) \<le> of_char hi)"

fun str_join :: "string \<Rightarrow> string list \<Rightarrow> string" where
  \<comment> \<open>\<open>sep.join(xs)\<close>\<close>
  "str_join sep [] = []"
| "str_join sep [x] = x"
| "str_join sep (x # y # ys) = x @ sep @ str_join sep (y # ys)"

definition digit_char :: "nat \<Rightarrow> char" where
  "digit_char k = char_of (48 + k)"

definition digit_val :: "char \<Rightarrow> int" where
  "digit_val ch = int (of_char ch) - 48"

fun str_nat :: "nat \<Rightarrow> string" where
  \<comment> \<open>\<open>str(n)\<close> for a natural number\<close>
  "str_nat n = (if n < 10 then [digit_char n] else str_nat (n div 10) @ [digit_char (n mod 10)])"

declare str_nat.simps [simp del]

definition str_int :: "int \<Rightarrow> string" where
  "str_int i = (if i < 0 then CHR ''-'' # str_nat (nat (- i)) else str_nat (nat i))"

definition zfill2 :: "int \<Rightarrow> string" where
  \<comment> \<open>two digits, zero filled: \<open>%d\<close> and \<open>%m\<close> of \<open>strftime\<close>\<close>
  "zfill2 i = [digit_char (nat (i div 10 mod 10)), digit_char (nat (i mod 10))]"

section \<open>The proleptic Gregorian calendar of \<open>datetime\<close>\<close>

text \<open>
  \<open>datetime\<close> is Python's standard library. Its calendar functions are written here as
  the library defines them: \<open>_is_leap\<close>, \<open>_days_before_year\<close>, \<open>_days_in_month\<close>,
  \<open>_days_before_month\<close>, \<open>_ymd2ord\<close> and \<open>_ord2ymd\<close>. Day 1 is 0001-01-01 and the last
  day, 9999-12-31, is day 3652059.
\<close>

definition MINYEAR :: int where "MINYEAR = 1"
definition MAXYEAR :: int where "MAXYEAR = 9999"
definition MAXORDINAL :: int where "MAXORDINAL = 3652059"

definition is_leap :: "int \<Rightarrow> bool" where
  "is_leap y = (y mod 4 = 0 \<and> (y mod 100 \<noteq> 0 \<or> y mod 400 = 0))"

definition days_before_year :: "int \<Rightarrow> int" where
  "days_before_year y0 = (let y = y0 - 1 in y * 365 + y div 4 - y div 100 + y div 400)"

definition DAYS_IN_MONTH :: "int list" where
  "DAYS_IN_MONTH = [-1, 31, 28, 31, 30, 31, 30, 31, 31, 30, 31, 30, 31]"

definition DAYS_BEFORE_MONTH :: "int list" where
  "DAYS_BEFORE_MONTH = [-1, 0, 31, 59, 90, 120, 151, 181, 212, 243, 273, 304, 334]"

definition days_in_month :: "int \<Rightarrow> int \<Rightarrow> int" where
  "days_in_month y m = (if m = 2 \<and> is_leap y then 29 else DAYS_IN_MONTH ! nat m)"

definition days_before_month :: "int \<Rightarrow> int \<Rightarrow> int" where
  "days_before_month y m = DAYS_BEFORE_MONTH ! nat m + (if m > 2 \<and> is_leap y then 1 else 0)"

definition ymd2ord :: "int \<Rightarrow> int \<Rightarrow> int \<Rightarrow> int" where
  "ymd2ord y m d = days_before_year y + days_before_month y m + d"

definition DI400Y :: int where "DI400Y = 146097"
definition DI100Y :: int where "DI100Y = 36524"
definition DI4Y :: int where "DI4Y = 1461"

definition month_day :: "bool \<Rightarrow> int \<Rightarrow> int \<times> int" where
  \<comment> \<open>the tail of \<open>_ord2ymd\<close>: month and day of the \<open>n\<close>-th day (from 0) of a year\<close>
  "month_day leapyear n =
     (let m = (n + 50) div 32;
          preceding = DAYS_BEFORE_MONTH ! nat m + (if m > 2 \<and> leapyear then 1 else 0)
      in if preceding > n
         then (let m = m - 1;
                   preceding =
                     preceding - (DAYS_IN_MONTH ! nat m + (if m = 2 \<and> leapyear then 1 else 0))
               in (m, n - preceding + 1))
         else (m, n - preceding + 1))"

definition ord2ymd :: "int \<Rightarrow> int \<times> int \<times> int" where
  "ord2ymd n0 =
     (let n = n0 - 1;
          n400 = n div DI400Y; n = n mod DI400Y;
          y = n400 * 400 + 1;
          n100 = n div DI100Y; n = n mod DI100Y;
          n4 = n div DI4Y; n = n mod DI4Y;
          n1 = n div 365; n = n mod 365;
          y = y + n100 * 100 + n4 * 4 + n1
      in if n1 = 4 \<or> n100 = 4 then (y - 1, 12, 31)
         else (let leapyear = (n1 = 3 \<and> (n4 \<noteq> 24 \<or> n100 = 3));
                   (m, d) = month_day leapyear n
               in (y, m, d)))"

section \<open>\<open>datetime\<close> values\<close>

record datetime =
  year :: int
  month :: int
  day :: int
  hour :: int
  minute :: int
  second :: int
  microsecond :: int

definition valid_datetime :: "datetime \<Rightarrow> bool" where
  \<comment> \<open>the field ranges every \<open>datetime\<close> object satisfies (\<open>_check_date_fields\<close>,
      \<open>_check_time_fields\<close>)\<close>
  "valid_datetime dt =
     (MINYEAR \<le> year dt \<and> year dt \<le> MAXYEAR \<and> 1 \<le> month dt \<and> month dt \<le> 12 \<and>
      1 \<le> day dt \<and> day dt \<le> days_in_month (year dt) (month dt) \<and>
      0 \<le> hour dt \<and> hour dt \<le> 23 \<and> 0 \<le> minute dt \<and> minute dt \<le> 59 \<and>
      0 \<le> second dt \<and> second dt \<le> 59 \<and> 0 \<le> microsecond dt \<and> microsecond dt \<le> 999999)"

definition datetime_init :: "int \<Rightarrow> int \<Rightarrow> int \<Rightarrow> int \<Rightarrow> int \<Rightarrow> int \<Rightarrow> int \<Rightarrow> exn + datetime" where
  \<comment> \<open>\<open>datetime(year, month, day, hour, minute, second, microsecond)\<close>; the time fields
      the program passes come from an existing object, so only the date is checked here\<close>
  "datetime_init y m d hh mm ss us =
     (if \<not> (MINYEAR \<le> y \<and> y \<le> MAXYEAR) then
        Inl (ValueError (''year '' @ str_int y @ '' is out of range''))
      else if \<not> (1 \<le> m \<and> m \<le> 12) then Inl (ValueError ''month must be in 1..12'')
      else if \<not> (1 \<le> d \<and> d \<le> days_in_month y m) then
        Inl (ValueError ''day is out of range for month'')
      else Inr \<lparr>year = y, month = m, day = d, hour = hh, minute = mm, second = ss,
                microsecond = us\<rparr>)"

definition replace_year :: "datetime \<Rightarrow> int \<Rightarrow> exn + datetime" where
  \<comment> \<open>\<open>dt.replace(year=y)\<close>: a new object built from the fields, validated again\<close>
  "replace_year dt y =
     datetime_init y (month dt) (day dt) (hour dt) (minute dt) (second dt) (microsecond dt)"

definition toordinal :: "datetime \<Rightarrow> int" where
  "toordinal dt = ymd2ord (year dt) (month dt) (day dt)"

definition weekday :: "datetime \<Rightarrow> int" where
  \<comment> \<open>Monday is 0, Sunday is 6\<close>
  "weekday dt = (toordinal dt + 6) mod 7"

definition add_days :: "datetime \<Rightarrow> int \<Rightarrow> exn + datetime" where
  \<comment> \<open>\<open>dt + timedelta(days=k)\<close>: the date moves by \<open>k\<close> days, the time of day stays;
      \<open>OverflowError\<close> when the result is not a day of the calendar\<close>
  "add_days dt k =
     (let n = toordinal dt + k
      in if 0 < n \<and> n \<le> MAXORDINAL
         then (case ord2ymd n of (y, m, d) \<Rightarrow> Inr (dt\<lparr>year := y, month := m, day := d\<rparr>))
         else Inl OverflowError)"

definition getstate :: "datetime \<Rightarrow> int list" where
  "getstate dt = [year dt, month dt, day dt, hour dt, minute dt, second dt, microsecond dt]"

fun cmp_fields :: "int list \<Rightarrow> int list \<Rightarrow> int" where
  \<comment> \<open>the comparison of two field tuples, left to right\<close>
  "cmp_fields (x # xs) (y # ys) =
     (if x < y then - 1 else if y < x then 1 else cmp_fields xs ys)"
| "cmp_fields _ _ = 0"

definition datetime_lt :: "datetime \<Rightarrow> datetime \<Rightarrow> bool" where
  "datetime_lt a b = (cmp_fields (getstate a) (getstate b) < 0)"

definition datetime_le :: "datetime \<Rightarrow> datetime \<Rightarrow> bool" where
  "datetime_le a b = (cmp_fields (getstate a) (getstate b) \<le> 0)"

section \<open>Parsing and printing a date in the format \<open>%d.%m.%Y\<close>\<close>

text \<open>
  \<open>datetime.strptime(value, "%d.%m.%Y")\<close> matches the whole of \<open>value\<close> against the regular
  expression the library builds from the format: for \<open>%d\<close> the alternatives
  \<open>3[0-1]|[1-2]\d|0[1-9]|[1-9]| [1-9]\<close>, for \<open>%m\<close> \<open>1[0-2]|0[1-9]|[1-9]\<close>, for \<open>%Y\<close> \<open>\d\d\d\d\<close>,
  with a literal dot between them. No alternative contains a dot, so the three fields are
  the pieces of \<open>value\<close> between its dots. The fields found are then made into a date,
  which checks them against the calendar. Every failure is a \<open>ValueError\<close>; its text is
  not kept, since \<open>Birthday\<close> replaces it.
\<close>

fun match_d :: "string \<Rightarrow> int option" where
  "match_d [a, b] =
     (if a = CHR ''3'' \<and> char_between (CHR ''0'') (CHR ''1'') b then Some (30 + digit_val b)
      else if char_between (CHR ''1'') (CHR ''2'') a \<and> is_decimal_char b
        then Some (10 * digit_val a + digit_val b)
      else if a = CHR ''0'' \<and> char_between (CHR ''1'') (CHR ''9'') b then Some (digit_val b)
      else if a = CHR '' '' \<and> char_between (CHR ''1'') (CHR ''9'') b then Some (digit_val b)
      else None)"
| "match_d [a] = (if char_between (CHR ''1'') (CHR ''9'') a then Some (digit_val a) else None)"
| "match_d _ = None"

fun match_m :: "string \<Rightarrow> int option" where
  "match_m [a, b] =
     (if a = CHR ''1'' \<and> char_between (CHR ''0'') (CHR ''2'') b then Some (10 + digit_val b)
      else if a = CHR ''0'' \<and> char_between (CHR ''1'') (CHR ''9'') b then Some (digit_val b)
      else None)"
| "match_m [a] = (if char_between (CHR ''1'') (CHR ''9'') a then Some (digit_val a) else None)"
| "match_m _ = None"

fun match_Y :: "string \<Rightarrow> int option" where
  "match_Y [a, b, c, d] =
     (if is_decimal_char a \<and> is_decimal_char b \<and> is_decimal_char c \<and> is_decimal_char d
      then Some (1000 * digit_val a + 100 * digit_val b + 10 * digit_val c + digit_val d)
      else None)"
| "match_Y _ = None"

definition strptime_dmY :: "string \<Rightarrow> exn + datetime" where
  "strptime_dmY s =
     (case split_at (CHR ''.'') [] s of
        [ds, ms, ys] \<Rightarrow>
          (case match_d ds of
             None \<Rightarrow> Inl (ValueError ''time data does not match format'')
           | Some d \<Rightarrow>
               (case match_m ms of
                  None \<Rightarrow> Inl (ValueError ''time data does not match format'')
                | Some m \<Rightarrow>
                    (case match_Y ys of
                       None \<Rightarrow> Inl (ValueError ''time data does not match format'')
                     | Some y \<Rightarrow> datetime_init y m d 0 0 0 0)))
      | _ \<Rightarrow> Inl (ValueError ''time data does not match format''))"

definition strftime_dmY :: "datetime \<Rightarrow> string" where
  \<comment> \<open>\<open>dt.strftime("%d.%m.%Y")\<close>. The library hands the format to the C library's
      \<open>strftime\<close>; glibc, on which the program runs, prints \<open>%d\<close> and \<open>%m\<close> as two
      digits and \<open>%Y\<close> as the plain decimal number of the year, with no zero filling, so a
      year below 1000 comes out with fewer than four digits\<close>
  "strftime_dmY dt = zfill2 (day dt) @ ''.'' @ zfill2 (month dt) @ ''.'' @ str_int (year dt)"

section \<open>The fields: \<open>Name\<close>, \<open>Phone\<close>, \<open>Birthday\<close>\<close>

text \<open>
  \<open>Field\<close> and its subclasses define no \<open>__eq__\<close>, so \<open>==\<close> and \<open>in\<close> on \<open>Phone\<close> objects
  compare identity. A \<open>Phone\<close> of the model therefore carries the identity of its object,
  \<open>phone_id\<close>, next to its value: two of them are equal exactly when they are the same
  object. Identities are handed out from a counter, the number of \<open>Phone\<close> objects
  created so far, which every operation that creates one takes and returns.
\<close>

record Name =
  name_value :: string

record Phone =
  phone_id :: nat
  phone_value :: string

record Birthday =
  birthday_value :: datetime

definition Phone_init :: "string \<Rightarrow> nat \<Rightarrow> exn + Phone" where
  "Phone_init v next_id =
     (if \<not> isdigit v \<or> length v \<noteq> 10
      then Inl (ValueError ''Phone number must contain exactly 10 digits.'')
      else Inr \<lparr>phone_id = next_id, phone_value = v\<rparr>)"

definition Birthday_init :: "string \<Rightarrow> exn + Birthday" where
  "Birthday_init v =
     (case strptime_dmY v of
        Inr dt \<Rightarrow> Inr \<lparr>birthday_value = dt\<rparr>
      | Inl (ValueError _) \<Rightarrow> Inl (ValueError ''Invalid date format. Use DD.MM.YYYY'')
      | Inl e \<Rightarrow> Inl e)"

definition Birthday_str :: "Birthday \<Rightarrow> string" where
  "Birthday_str b = strftime_dmY (birthday_value b)"

section \<open>\<open>Record\<close>\<close>

text \<open>
  A method that changes the record returns the exception it raised, if any, together with
  the record as it is afterwards (and the identity counter): what was changed before a
  \<open>raise\<close> stays changed.
\<close>

record Record =
  name :: Name
  phones :: "Phone list"
  birthday :: "Birthday option"

definition Record_init :: "string \<Rightarrow> Record" where
  "Record_init nm = \<lparr>name = \<lparr>name_value = nm\<rparr>, phones = [], birthday = None\<rparr>"

definition add_phone :: "Record \<Rightarrow> string \<Rightarrow> nat \<Rightarrow> exn option \<times> Record \<times> nat" where
  "add_phone self phone_number next_id =
     (case Phone_init phone_number next_id of
        Inl e \<Rightarrow> (Some e, self, next_id)
      | Inr phone \<Rightarrow>
          if phone \<notin> set (phones self)
          then (None, self\<lparr>phones := phones self @ [phone]\<rparr>, Suc next_id)
          else (Some (ValueError (''Phone number '' @ phone_number @ '' already exists.'')),
                self, Suc next_id))"

definition remove_phone :: "Record \<Rightarrow> string \<Rightarrow> nat \<Rightarrow> exn option \<times> Record \<times> nat" where
  "remove_phone self phone_arg next_id =
     (case Phone_init phone_arg next_id of
        Inl e \<Rightarrow> (Some e, self, next_id)
      | Inr phone \<Rightarrow>
          (case List.find (\<lambda>user_phone. phone_value user_phone = phone_value phone) (phones self) of
             Some user_phone \<Rightarrow>
               (None, self\<lparr>phones := remove1 user_phone (phones self)\<rparr>, Suc next_id)
           | None \<Rightarrow> (None, self, Suc next_id)))"

definition find_phone :: "Record \<Rightarrow> string \<Rightarrow> Phone option" where
  "find_phone self phone_number = List.find (\<lambda>phone. phone_value phone = phone_number) (phones self)"

definition edit_phone :: "Record \<Rightarrow> string \<Rightarrow> string \<Rightarrow> nat \<Rightarrow> exn option \<times> Record \<times> nat" where
  "edit_phone self old_phone new_phone next_id =
     (case find_phone self old_phone of
        Some phone \<Rightarrow>
          (case remove_phone self old_phone next_id of
             (Some e, self1, id1) \<Rightarrow> (Some e, self1, id1)
           | (None, self1, id1) \<Rightarrow> add_phone self1 new_phone id1)
      | None \<Rightarrow> (Some (ValueError ''Phone number not found''), self, next_id))"

definition add_birthday :: "Record \<Rightarrow> string \<Rightarrow> exn option \<times> Record" where
  "add_birthday self raw =
     (case Birthday_init raw of
        Inl e \<Rightarrow> (Some e, self)
      | Inr b \<Rightarrow> (None, self\<lparr>birthday := Some b\<rparr>))"

definition Record_str :: "Record \<Rightarrow> string" where
  "Record_str self =
     (let birthday_str =
            (case birthday self of Some b \<Rightarrow> '', birthday: '' @ Birthday_str b | None \<Rightarrow> [])
      in ''Contact name: '' @ name_value (name self) @ '', phones: ''
           @ str_join ''; '' (map phone_value (phones self)) @ birthday_str)"

section \<open>\<open>AddressBook\<close>\<close>

text \<open>
  \<open>AddressBook\<close> is a \<open>UserDict\<close> from names to records. A Python dictionary keeps its keys
  in the order they were first inserted, and the birthday query walks it in that order, so
  the model is an association list with distinct keys.
\<close>

type_synonym AddressBook = "(string \<times> Record) list"

fun dict_set :: "'k \<Rightarrow> 'v \<Rightarrow> ('k \<times> 'v) list \<Rightarrow> ('k \<times> 'v) list" where
  \<comment> \<open>\<open>data[k] = v\<close>: a key already there keeps its place\<close>
  "dict_set k v [] = [(k, v)]"
| "dict_set k v ((k', v') # kvs) =
     (if k' = k then (k, v) # kvs else (k', v') # dict_set k v kvs)"

definition add_record :: "AddressBook \<Rightarrow> Record \<Rightarrow> AddressBook" where
  "add_record data record = dict_set (name_value (name record)) record data"

definition find_record :: "AddressBook \<Rightarrow> string \<Rightarrow> Record option" where
  \<comment> \<open>\<open>AddressBook.find\<close>\<close>
  "find_record data nm = map_of data nm"

definition delete_record :: "AddressBook \<Rightarrow> string \<Rightarrow> AddressBook" where
  \<comment> \<open>\<open>AddressBook.delete\<close>\<close>
  "delete_record data nm =
     (if nm \<in> set (map fst data) then filter (\<lambda>kv. fst kv \<noteq> nm) data else data)"

definition adjust_for_weekend :: "datetime \<Rightarrow> exn + datetime" where
  "adjust_for_weekend date_obj =
     (if weekday date_obj = 5 then add_days date_obj 2
      else if weekday date_obj = 6 then add_days date_obj 1
      else Inr date_obj)"

text \<open>
  The loop of \<open>get_upcoming_birthdays\<close> over the records, with the list built so far.
  \<open>today\<close> is what \<open>datetime.today()\<close> returned: the date and the time of day of the call.
\<close>

fun upcoming_loop ::
  "datetime \<Rightarrow> datetime \<Rightarrow> Record list \<Rightarrow> (Record \<times> datetime) list
     \<Rightarrow> exn + (Record \<times> datetime) list" where
  "upcoming_loop today next_week [] upcoming_birthdays = Inr upcoming_birthdays"
| "upcoming_loop today next_week (record # rest) upcoming_birthdays =
     (case birthday record of
        None \<Rightarrow> upcoming_loop today next_week rest upcoming_birthdays
      | Some b \<Rightarrow>
          (case replace_year (birthday_value b) (year today) of
             Inl e \<Rightarrow> Inl e
           | Inr birthday_this_year \<Rightarrow>
               (case (if datetime_lt birthday_this_year today
                      then replace_year birthday_this_year (year today + 1)
                      else Inr birthday_this_year) of
                  Inl e \<Rightarrow> Inl e
                | Inr birthday_this_year \<Rightarrow>
                    (case adjust_for_weekend birthday_this_year of
                       Inl e \<Rightarrow> Inl e
                     | Inr birthday_this_year \<Rightarrow>
                         upcoming_loop today next_week rest
                           (if datetime_le today birthday_this_year
                               \<and> datetime_le birthday_this_year next_week
                            then upcoming_birthdays @ [(record, birthday_this_year)]
                            else upcoming_birthdays)))))"

definition get_upcoming_birthdays ::
  "AddressBook \<Rightarrow> datetime \<Rightarrow> int \<Rightarrow> exn + (Record \<times> datetime) list" where
  "get_upcoming_birthdays data today days =
     (case add_days today days of
        Inl e \<Rightarrow> Inl e
      | Inr next_week \<Rightarrow> upcoming_loop today next_week (map snd data) [])"

section \<open>The console view and the commands\<close>

text \<open>
  The state of the running program: the address book, the lines \<open>ConsoleView\<close> has printed,
  the identity counter, and the address book last written to the file by \<open>save_data\<close>.
\<close>

record world =
  book :: AddressBook
  printed :: "string list"
  next_phone_id :: nat
  pickled :: "AddressBook option"

definition show_message :: "string \<Rightarrow> world \<Rightarrow> world" where
  "show_message message w = w\<lparr>printed := printed w @ [message]\<rparr>"

definition show_contact :: "Record \<Rightarrow> world \<Rightarrow> world" where
  "show_contact record w = w\<lparr>printed := printed w @ [Record_str record]\<rparr>"

definition show_all_contacts :: "world \<Rightarrow> world" where
  "show_all_contacts w = w\<lparr>printed := printed w @ map (\<lambda>kv. Record_str (snd kv)) (book w)\<rparr>"

definition commands_text :: string where
  "commands_text =
     concat (map (\<lambda>line. CHR 0x0A # replicate 8 (CHR '' '') @ line)
       [''Available commands:'', ''- hello'', ''- add <name> <phone>'',
        ''- change <name> <old phone> <new phone>'', ''- phone <name>'',
        ''- add-birthday <name> <birthday>'', ''- show-birthday <name>'', ''- birthdays'',
        ''- all'', ''- close / exit'', []])"

definition show_commands :: "world \<Rightarrow> world" where
  "show_commands w = w\<lparr>printed := printed w @ [commands_text]\<rparr>"

definition store_record :: "string \<Rightarrow> Record \<Rightarrow> nat \<Rightarrow> world \<Rightarrow> world" where
  \<comment> \<open>the record object held under a name, as a method call has left it\<close>
  "store_record nm record next_id w =
     w\<lparr>book := dict_set nm record (book w), next_phone_id := next_id\<rparr>"

definition unpack_message :: "nat \<Rightarrow> nat \<Rightarrow> string" where
  \<comment> \<open>the text of the \<open>ValueError\<close> of \<open>a, b, *_ = args\<close> when \<open>args\<close> is too short\<close>
  "unpack_message expected got =
     ''not enough values to unpack (expected at least '' @ str_nat expected @ '', got ''
       @ str_nat got @ '')''"

text \<open>
  The command functions before decoration: each returns the exception it raised, if any
  (otherwise it returned \<open>None\<close>), and the state it left.
\<close>

definition add_contact :: "string list \<Rightarrow> world \<Rightarrow> exn option \<times> world" where
  "add_contact args w =
     (case args of
        nm # phone # _ \<Rightarrow>
          (case (case find_record (book w) nm of
                   None \<Rightarrow>
                     (Record_init nm, w\<lparr>book := add_record (book w) (Record_init nm)\<rparr>,
                      ''Contact added.'')
                 | Some r \<Rightarrow> (r, w, ''Contact updated.'')) of
             (record, w1, message) \<Rightarrow>
               if phone \<noteq> [] then
                 (case add_phone record phone (next_phone_id w1) of
                    (Some e, record', id') \<Rightarrow> (Some e, store_record nm record' id' w1)
                  | (None, record', id') \<Rightarrow>
                      (None, show_message message (store_record nm record' id' w1)))
               else (None, show_message message w1))
      | _ \<Rightarrow> (Some (ValueError (unpack_message 2 (length args))), w))"

definition change_number :: "string list \<Rightarrow> world \<Rightarrow> exn option \<times> world" where
  "change_number args w =
     (case args of
        nm # old_phone # new_phone # _ \<Rightarrow>
          (case find_record (book w) nm of
             Some record \<Rightarrow>
               (case edit_phone record old_phone new_phone (next_phone_id w) of
                  (Some e, record', id') \<Rightarrow> (Some e, store_record nm record' id' w)
                | (None, record', id') \<Rightarrow>
                    (None, show_message ''Contact has been updated.''
                             (store_record nm record' id' w)))
           | None \<Rightarrow> (None, show_message ''No matches found. Contact not updated.'' w))
      | _ \<Rightarrow> (Some (ValueError (unpack_message 3 (length args))), w))"

definition show_phone :: "string list \<Rightarrow> world \<Rightarrow> exn option \<times> world" where
  "show_phone args w =
     (case args of
        nm # _ \<Rightarrow>
          (case find_record (book w) nm of
             Some record \<Rightarrow>
               (None, show_message (nm @ [CHR 0x27] @ ''s phone number is: ''
                        @ str_join ''; '' (map phone_value (phones record))) w)
           | None \<Rightarrow> (None, show_message ''Contact not found.'' w))
      | _ \<Rightarrow> (Some (ValueError (unpack_message 1 (length args))), w))"

definition add_birthday_command :: "string list \<Rightarrow> world \<Rightarrow> exn option \<times> world" where
  \<comment> \<open>the function \<open>add_birthday\<close> of the command layer\<close>
  "add_birthday_command args w =
     (case args of
        nm # raw # _ \<Rightarrow>
          (case find_record (book w) nm of
             Some record \<Rightarrow>
               (case add_birthday record raw of
                  (Some e, record') \<Rightarrow> (Some e, store_record nm record' (next_phone_id w) w)
                | (None, record') \<Rightarrow>
                    (None, show_message (''Birthday for '' @ nm @ '' added as '' @ raw @ ''.'')
                             (store_record nm record' (next_phone_id w) w)))
           | None \<Rightarrow> (None, show_message ''Contact not found.'' w))
      | _ \<Rightarrow> (Some (ValueError (unpack_message 2 (length args))), w))"

definition show_birthday :: "string list \<Rightarrow> world \<Rightarrow> exn option \<times> world" where
  "show_birthday args w =
     (case args of
        nm # _ \<Rightarrow>
          (case find_record (book w) nm of
             Some record \<Rightarrow>
               (case birthday record of
                  Some b \<Rightarrow>
                    (None, show_message (nm @ [CHR 0x27] @ ''s birthday is on ''
                             @ Birthday_str b @ ''.'') w)
                | None \<Rightarrow> (None, show_message (nm @ '' does not have a birthday set.'') w))
           | None \<Rightarrow> (None, show_message ''Contact not found.'' w))
      | _ \<Rightarrow> (Some (ValueError (unpack_message 1 (length args))), w))"

definition birthdays :: "datetime \<Rightarrow> string list \<Rightarrow> world \<Rightarrow> exn option \<times> world" where
  "birthdays today args w =
     (case get_upcoming_birthdays (book w) today 7 of
        Inl e \<Rightarrow> (Some e, w)
      | Inr upcoming \<Rightarrow>
          if upcoming \<noteq> [] then
            (None, show_message (''Upcoming birthdays:'' @ [CHR 0x0A]
                     @ str_join [CHR 0x0A]
                         (map (\<lambda>(record, date). name_value (name record) @ '': ''
                                 @ strftime_dmY date) upcoming)) w)
          else (None, show_message ''No upcoming birthdays in the next week.'' w))"

definition input_error ::
  "(string list \<Rightarrow> world \<Rightarrow> exn option \<times> world) \<Rightarrow> string list \<Rightarrow> world
     \<Rightarrow> (exn + string option) \<times> world" where
  \<comment> \<open>the decorator: the value \<open>inner\<close> returns, or the exception it lets through\<close>
  "input_error func args w =
     (case func args w of
        (None, w') \<Rightarrow> (Inr None, w')
      | (Some (ValueError msg), w') \<Rightarrow> (Inr (Some (''ValueError: '' @ msg)), w')
      | (Some IndexError, w') \<Rightarrow> (Inr (Some ''IndexError: Insufficient arguments provided.''), w')
      | (Some KeyError, w') \<Rightarrow> (Inr (Some ''KeyError: Contact not found.''), w')
      | (Some e, w') \<Rightarrow> (Inl e, w'))"

section \<open>One turn of the main loop\<close>

datatype outcome = Continue | Break | Crash exn

definition save_data :: "world \<Rightarrow> world" where
  "save_data w = w\<lparr>pickled := Some (book w)\<rparr>"

definition call_command :: "(exn + string option) \<times> world \<Rightarrow> outcome \<times> world" where
  \<comment> \<open>a decorated command called as a statement: the value it returns is dropped\<close>
  "call_command r = (case r of (Inl e, w') \<Rightarrow> (Crash e, w') | (Inr _, w') \<Rightarrow> (Continue, w'))"

definition main_step :: "datetime \<Rightarrow> string \<Rightarrow> world \<Rightarrow> outcome \<times> world" where
  \<comment> \<open>the body of \<open>while True\<close> for one line of input; \<open>today\<close> is the clock at that time\<close>
  "main_step today user_input w =
     (case str_split user_input of
        [] \<Rightarrow> (Crash (ValueError (unpack_message 1 0)), w)
      | command # args \<Rightarrow>
          (let command = str_lower (str_strip command)
           in if command \<in> set [''close'', ''exit''] then
                (Break, show_message ''Good bye'' (save_data w))
              else if command = ''hello'' then (Continue, show_message ''How can I help you?'' w)
              else if command = ''add'' then call_command (input_error add_contact args w)
              else if command = ''change'' then call_command (input_error change_number args w)
              else if command = ''phone'' then call_command (input_error show_phone args w)
              else if command = ''add-birthday'' then
                call_command (input_error add_birthday_command args w)
              else if command = ''show-birthday'' then
                call_command (input_error show_birthday args w)
              else if command = ''birthdays'' then
                call_command (input_error (birthdays today) args w)
              else if command = ''all'' then (Continue, show_all_contacts w)
              else if command = ''commands'' then (Continue, show_commands w)
              else (Continue, show_message ''Invalid command'' w)))"

section \<open>Notions used in the statements\<close>

definition phone_count :: "Record \<Rightarrow> string \<Rightarrow> nat" where
  \<comment> \<open>how many phones of the record have this digit string\<close>
  "phone_count self s = length (filter (\<lambda>phone. phone_value phone = s) (phones self))"

text \<open>
  A string of the shape DD.MM.YYYY, two decimal digits, a dot, two decimal digits, a dot
  and four decimal digits, read as day, month and year.
\<close>

fun DD_MM_YYYY :: "string \<Rightarrow> (int \<times> int \<times> int) option" where
  "DD_MM_YYYY [d1, d2, p1, m1, m2, p2, y1, y2, y3, y4] =
     (if p1 = CHR ''.'' \<and> p2 = CHR ''.'' \<and>
         list_all is_decimal_char [d1, d2, m1, m2, y1, y2, y3, y4]
      then Some (10 * digit_val d1 + digit_val d2, 10 * digit_val m1 + digit_val m2,
                 1000 * digit_val y1 + 100 * digit_val y2 + 10 * digit_val y3 + digit_val y4)
      else None)"
| "DD_MM_YYYY _ = None"

definition valid_calendar_values :: "int \<times> int \<times> int \<Rightarrow> bool" where
  \<comment> \<open>day, month and year name a day of the calendar\<close>
  "valid_calendar_values dmy =
     (case dmy of (d, m, y) \<Rightarrow>
        MINYEAR \<le> y \<and> y \<le> MAXYEAR \<and> 1 \<le> m \<and> m \<le> 12 \<and> 1 \<le> d \<and> d \<le> days_in_month y m)"

section \<open>The calendar: day numbers and dates\<close>

text \<open>
  \<open>ord2ymd\<close> undoes \<open>ymd2ord\<close> and yields a date of the calendar; the day number of a
  valid date lies between 1 and \<open>MAXORDINAL\<close>. Adding days to a \<open>datetime\<close> therefore
  moves its day number by that many days.
\<close>

lemma month_day_ok:
  assumes "0 \<le> n" "n < (if leap then 366 else 365)"
  shows "case month_day leap n of (m, d) \<Rightarrow>
           1 \<le> m \<and> m \<le> 12 \<and> 1 \<le> d \<and>
           d \<le> (if m = 2 \<and> leap then 29 else DAYS_IN_MONTH ! nat m) \<and>
           DAYS_BEFORE_MONTH ! nat m + (if m > 2 \<and> leap then 1 else 0) + d = n + 1"
proof -
  define k where "k = (n + 50) div 32"
  have kb: "32 * k \<le> n + 50" "n + 50 < 32 * k + 32"
    unfolding k_def by auto
  with assms have "1 \<le> k" "k \<le> 12"
    by (auto split: if_splits)
  then consider "k = 1" | "k = 2" | "k = 3" | "k = 4" | "k = 5" | "k = 6"
    | "k = 7" | "k = 8" | "k = 9" | "k = 10" | "k = 11" | "k = 12"
    by atomize_elim arith
  then show ?thesis
    using kb assms
    by cases (auto simp: month_day_def k_def [symmetric] Let_def DAYS_BEFORE_MONTH_def DAYS_IN_MONTH_def split: if_splits)
qed



lemma div_decomp: "0 \<le> r \<Longrightarrow> r < k \<Longrightarrow> (k * q + r) div k = (q::int)"
  by (cases "k = 0") (simp_all add: div_pos_pos_trivial)

lemma mod_decomp: "0 \<le> r \<Longrightarrow> r < k \<Longrightarrow> (k * q + r) mod k = (r::int)"
  by (cases "k = 0") (simp_all add: mod_pos_pos_trivial)

lemma days_before_year_decomp:
  assumes "0 \<le> b" "b \<le> 3" "0 \<le> c" "c \<le> 24" "0 \<le> e" "e \<le> 3"
  shows "days_before_year (400 * a + 100 * b + 4 * c + e + 1) =
           146097 * a + 36524 * b + 1461 * c + 365 * e"
proof -
  let ?Y = "400 * a + 100 * b + 4 * c + e"
  have "?Y = 4 * (100 * a + 25 * b + c) + e" by simp
  then have d4: "?Y div 4 = 100 * a + 25 * b + c"
    using assms div_decomp [of e 4 "100 * a + 25 * b + c"] by simp
  have "?Y = 100 * (4 * a + b) + (4 * c + e)" by simp
  then have d100: "?Y div 100 = 4 * a + b"
    using assms div_decomp [of "4 * c + e" 100 "4 * a + b"] by simp
  have "?Y = 400 * a + (100 * b + 4 * c + e)" by simp
  then have d400: "?Y div 400 = a"
    using assms div_decomp [of "100 * b + 4 * c + e" 400 a] by simp
  show ?thesis
    by (simp add: days_before_year_def Let_def d4 d100 d400)
qed


lemma mod_eq_0_range: "0 < x \<Longrightarrow> x \<le> k \<Longrightarrow> (x mod k = 0 \<longleftrightarrow> x = (k::int))"
  by (cases "x = k") (simp_all add: mod_pos_pos_trivial)


lemma mod_shift: "(x::int) = k * q + r \<Longrightarrow> x mod k = r mod k"
  by simp

lemma is_leap_decomp:
  assumes "0 \<le> b" "b \<le> 3" "0 \<le> c" "c \<le> 24" "0 \<le> e" "e \<le> 3"
  shows "is_leap (400 * a + 100 * b + 4 * c + e + 1) \<longleftrightarrow> (e = 3 \<and> (c \<noteq> 24 \<or> b = 3))"
proof -
  let ?Y = "400 * a + 100 * b + 4 * c + e + 1"
  have m4: "?Y mod 4 = (e + 1) mod 4"
    by (rule mod_shift [where q = "100 * a + 25 * b + c"]) simp
  have m100: "?Y mod 100 = (4 * c + e + 1) mod 100"
    by (rule mod_shift [where q = "4 * a + b"]) simp
  have m400: "?Y mod 400 = (100 * b + 4 * c + e + 1) mod 400"
    by (rule mod_shift [where q = a]) simp
  have "(e + 1) mod 4 = 0 \<longleftrightarrow> e + 1 = 4"
    using assms by (intro mod_eq_0_range) simp_all
  then have e4: "(e + 1) mod 4 = 0 \<longleftrightarrow> e = 3" by simp
  have "(4 * c + e + 1) mod 100 = 0 \<longleftrightarrow> 4 * c + e + 1 = 100"
    using assms by (intro mod_eq_0_range) simp_all
  moreover have "4 * c + e + 1 = 100 \<longleftrightarrow> (c = 24 \<and> e = 3)"
    using assms by linarith
  ultimately have e100: "(4 * c + e + 1) mod 100 = 0 \<longleftrightarrow> (c = 24 \<and> e = 3)" by simp
  have "(100 * b + 4 * c + e + 1) mod 400 = 0 \<longleftrightarrow> 100 * b + 4 * c + e + 1 = 400"
    using assms by (intro mod_eq_0_range) simp_all
  moreover have "100 * b + 4 * c + e + 1 = 400 \<longleftrightarrow> (b = 3 \<and> c = 24 \<and> e = 3)"
    using assms by linarith
  ultimately have e400: "(100 * b + 4 * c + e + 1) mod 400 = 0 \<longleftrightarrow> (b = 3 \<and> c = 24 \<and> e = 3)"
    by simp
  show ?thesis
    unfolding is_leap_def m4 m100 m400 e4 e100 e400 by auto
qed


lemma year_le_MAXYEAR:
  assumes "146097 * a + 36524 * b + 1461 * c + 365 * e + r \<le> (3652058::int)"
    and "0 \<le> r" "0 \<le> b" "b \<le> 3" "0 \<le> c" "c \<le> 24" "0 \<le> e" "e \<le> 3"
  shows "400 * a + 100 * b + 4 * c + e + 1 \<le> 9999"
proof -
  have a: "a \<le> 24" using assms by linarith
  show ?thesis
  proof (cases "a = 24")
    case False
    with a assms show ?thesis by linarith
  next
    case a24: True
    show ?thesis
    proof (cases "b = 3")
      case False
      with a24 assms show ?thesis by linarith
    next
      case b3: True
      show ?thesis
      proof (cases "c = 24")
        case False
        with a24 b3 assms show ?thesis by linarith
      next
        case True
        with a24 b3 assms have "e \<le> 2" by linarith
        with a24 b3 True show ?thesis by linarith
      qed
    qed
  qed
qed

lemma ord2ymd_props:
  assumes "1 \<le> n"
  shows "case ord2ymd n of (y, m, d) \<Rightarrow>
           ymd2ord y m d = n \<and> 1 \<le> y \<and> 1 \<le> m \<and> m \<le> 12 \<and> 1 \<le> d \<and>
           d \<le> days_in_month y m \<and> (n \<le> 3652059 \<longrightarrow> y \<le> 9999)"
proof -
  define a where "a = (n - 1) div 146097"
  define r1 where "r1 = (n - 1) mod 146097"
  define b where "b = r1 div 36524"
  define r2 where "r2 = r1 mod 36524"
  define c where "c = r2 div 1461"
  define r3 where "r3 = r2 mod 1461"
  define e where "e = r3 div 365"
  define r4 where "r4 = r3 mod 365"
  have n: "n - 1 = 146097 * a + r1" "0 \<le> r1" "r1 < 146097"
    by (simp_all add: a_def r1_def)
  have r1: "r1 = 36524 * b + r2" "0 \<le> r2" "r2 < 36524"
    by (simp_all add: b_def r2_def)
  have r2: "r2 = 1461 * c + r3" "0 \<le> r3" "r3 < 1461"
    by (simp_all add: c_def r3_def)
  have r3: "r3 = 365 * e + r4" "0 \<le> r4" "r4 < 365"
    by (simp_all add: e_def r4_def)
  have a: "0 \<le> a" using assms by (simp add: a_def pos_imp_zdiv_nonneg_iff)
  have b: "0 \<le> b" "b \<le> 4" using n r1 by linarith+
  have c: "0 \<le> c" "c \<le> 24" using r1 r2 by linarith+
  have e: "0 \<le> e" "e \<le> 4" using r2 r3 by linarith+
  have unf: "ord2ymd n =
     (if e = 4 \<or> b = 4 then (400 * a + 100 * b + 4 * c + e, 12, 31)
      else (case month_day (e = 3 \<and> (c \<noteq> 24 \<or> b = 3)) r4 of
              (m, d) \<Rightarrow> (400 * a + 100 * b + 4 * c + e + 1, m, d)))"
    by (simp add: ord2ymd_def Let_def DI400Y_def DI100Y_def DI4Y_def
        a_def r1_def b_def r2_def c_def r3_def e_def r4_def algebra_simps)
  have dec31: "days_in_month y 12 = 31" for y
    by (simp add: days_in_month_def DAYS_IN_MONTH_def)
  show ?thesis
  proof (cases "b = 4")
    case True
    with n r1 r2 r3 c e have z: "r2 = 0" by linarith
    have eq: "400 * a + 400 = 400 * a + 100 * 3 + 4 * 24 + 3 + 1" by simp
    have dby: "days_before_year (400 * a + 400) = 146097 * a + 145731"
      by (subst eq, subst days_before_year_decomp) simp_all
    have "is_leap (400 * a + 400)"
      by (subst eq, subst is_leap_decomp) simp_all
    then have dbm: "days_before_month (400 * a + 400) 12 = 335"
      by (simp add: days_before_month_def DAYS_BEFORE_MONTH_def)
    have "ymd2ord (400 * a + 400) 12 31 = n"
      unfolding ymd2ord_def dby dbm using True z n r1 by linarith
    moreover have "e = 0 \<and> c = 0"
      using True z r2 r3 c e by linarith
    then have "ord2ymd n = (400 * a + 400, 12, 31)"
      using True by (simp add: unf)
    moreover have "n \<le> 3652059 \<longrightarrow> 400 * a + 400 \<le> 9999"
      using True z n r1 by linarith
    ultimately show ?thesis using a dec31 by simp
  next
    case b4: False
    with b have b3: "b \<le> 3" by simp
    show ?thesis
    proof (cases "e = 4")
      case True
      with r1 r2 r3 b3 n have c23: "c \<le> 23" and z: "r4 = 0" by linarith+
      let ?y = "400 * a + 100 * b + 4 * c + 4"
      have eq: "?y = 400 * a + 100 * b + 4 * c + 3 + 1" by simp
      have dby: "days_before_year ?y = 146097 * a + 36524 * b + 1461 * c + 1095"
        using b b3 c by (subst eq, subst days_before_year_decomp) simp_all
      have "is_leap ?y"
        using b b3 c c23 by (subst eq, subst is_leap_decomp) simp_all
      then have dbm: "days_before_month ?y 12 = 335"
        by (simp add: days_before_month_def DAYS_BEFORE_MONTH_def)
      have "ymd2ord ?y 12 31 = n"
        unfolding ymd2ord_def dby dbm using True z n r1 r2 r3 by linarith
      moreover have "ord2ymd n = (?y, 12, 31)"
        using True by (simp add: unf)
      moreover have "n \<le> 3652059 \<longrightarrow> ?y \<le> 9999"
        using True z n r1 r2 r3 b b3 c c23 by linarith
      moreover have "1 \<le> ?y" using a b c by linarith
      ultimately show ?thesis using dec31 by simp
    next
      case False
      with e have e3: "e \<le> 3" by simp
      let ?leap = "e = 3 \<and> (c \<noteq> 24 \<or> b = 3)"
      let ?y = "400 * a + 100 * b + 4 * c + e + 1"
      obtain m d where md: "month_day ?leap r4 = (m, d)" by (cases "month_day ?leap r4")
      have "r4 < (if ?leap then 366 else 365)" using r3 by simp
      from month_day_ok [OF r3(2) this] md
      have ok: "DAYS_BEFORE_MONTH ! nat m + (if m > 2 \<and> ?leap then 1 else 0) + d = r4 + 1"
        and rng: "1 \<le> m" "m \<le> 12" "1 \<le> d"
          "d \<le> (if m = 2 \<and> ?leap then 29 else DAYS_IN_MONTH ! nat m)"
        by simp_all
      have dby: "days_before_year ?y = 146097 * a + 36524 * b + 1461 * c + 365 * e"
        using b b3 c e e3 by (intro days_before_year_decomp) simp_all
      have lp: "is_leap ?y \<longleftrightarrow> ?leap"
        using b b3 c e e3 by (intro is_leap_decomp) simp_all
      have "ymd2ord ?y m d = n"
        unfolding ymd2ord_def days_before_month_def dby lp
        using ok n r1 r2 r3 by linarith
      moreover have "ord2ymd n = (?y, m, d)"
        using b4 False md by (simp add: unf)
      moreover have "d \<le> days_in_month ?y m"
        unfolding days_in_month_def lp using rng(4) .
      moreover have "1 \<le> ?y" using a b c e by linarith
      moreover have "n \<le> 3652059 \<longrightarrow> ?y \<le> 9999"
      proof
        assume "n \<le> 3652059"
        then have "146097 * a + 36524 * b + 1461 * c + 365 * e + r4 \<le> 3652058"
          using n r1 r2 r3 by linarith
        then show "?y \<le> 9999"
          using r3(2) b(1) b3 c e(1) e3 by (rule year_le_MAXYEAR)
      qed
      ultimately show ?thesis using rng by simp
    qed
  qed
qed

lemma days_before_year_bounds:
  assumes "1 \<le> y" "y \<le> 9999"
  shows "0 \<le> days_before_year y"
    and "days_before_year y + (if is_leap y then 366 else 365) \<le> 3652059"
proof -
  define Y where "Y = y - 1"
  have q: "0 \<le> Y div 4" "0 \<le> Y div 400" "100 * (Y div 100) \<le> Y"
    "4 * (Y div 4) \<le> Y" "Y < 100 * (Y div 100) + 100" "400 * (Y div 400) \<le> Y"
    using assms by (simp_all add: Y_def pos_imp_zdiv_nonneg_iff)
  have dby: "days_before_year y = Y * 365 + Y div 4 - Y div 100 + Y div 400"
    by (simp add: days_before_year_def Y_def Let_def)
  show "0 \<le> days_before_year y"
    unfolding dby using q assms Y_def by linarith
  show "days_before_year y + (if is_leap y then 366 else 365) \<le> 3652059"
  proof (cases "y = 9999")
    case True
    then show ?thesis by (simp add: days_before_year_def is_leap_def)
  next
    case False
    with assms have "Y \<le> 9997" by (simp add: Y_def)
    then have "days_before_year y \<le> 3651330"
      unfolding dby using q by linarith
    then show ?thesis by simp
  qed
qed

lemma day_of_year_bounds:
  assumes "1 \<le> m" "m \<le> 12" "1 \<le> d" "d \<le> days_in_month y m"
  shows "1 \<le> days_before_month y m + d"
    and "days_before_month y m + d \<le> (if is_leap y then 366 else 365)"
proof -
  from assms(1,2) consider "m = 1" | "m = 2" | "m = 3" | "m = 4" | "m = 5" | "m = 6"
    | "m = 7" | "m = 8" | "m = 9" | "m = 10" | "m = 11" | "m = 12"
    by atomize_elim arith
  then have "1 \<le> days_before_month y m + d
      \<and> days_before_month y m + d \<le> (if is_leap y then 366 else 365)"
    using assms(3,4)
    by cases (auto simp: days_before_month_def days_in_month_def DAYS_BEFORE_MONTH_def
        DAYS_IN_MONTH_def split: if_splits)
  then show "1 \<le> days_before_month y m + d"
    and "days_before_month y m + d \<le> (if is_leap y then 366 else 365)" by simp_all
qed

lemma toordinal_range:
  assumes "valid_datetime dt"
  shows "1 \<le> toordinal dt" and "toordinal dt \<le> MAXORDINAL"
proof -
  from assms have v: "1 \<le> year dt" "year dt \<le> 9999" "1 \<le> month dt" "month dt \<le> 12"
    "1 \<le> day dt" "day dt \<le> days_in_month (year dt) (month dt)"
    by (simp_all add: valid_datetime_def MINYEAR_def MAXYEAR_def)
  note yb = days_before_year_bounds [OF v(1,2)]
  note db = day_of_year_bounds [OF v(3,4,5,6)]
  show "1 \<le> toordinal dt"
    unfolding toordinal_def ymd2ord_def using yb(1) db(1) by linarith
  show "toordinal dt \<le> MAXORDINAL"
    unfolding toordinal_def ymd2ord_def MAXORDINAL_def using yb(2) db(2)
    by (cases "is_leap (year dt)") simp_all
qed

lemma add_days_in_range:
  assumes "valid_datetime dt" "1 \<le> toordinal dt + k" "toordinal dt + k \<le> MAXORDINAL"
  shows "\<exists>dt'. add_days dt k = Inr dt' \<and> toordinal dt' = toordinal dt + k \<and>
           valid_datetime dt' \<and> hour dt' = hour dt \<and> minute dt' = minute dt \<and>
           second dt' = second dt \<and> microsecond dt' = microsecond dt"
proof -
  obtain y m d where o: "ord2ymd (toordinal dt + k) = (y, m, d)"
    by (cases "ord2ymd (toordinal dt + k)")
  from ord2ymd_props [OF assms(2)] o assms(3)
  have p: "ymd2ord y m d = toordinal dt + k" "1 \<le> y" "1 \<le> m" "m \<le> 12" "1 \<le> d"
    "d \<le> days_in_month y m" "y \<le> 9999"
    by (simp_all add: MAXORDINAL_def)
  have "add_days dt k = Inr (dt\<lparr>year := y, month := m, day := d\<rparr>)"
    using assms(2,3) o by (simp add: add_days_def Let_def)
  moreover have "valid_datetime (dt\<lparr>year := y, month := m, day := d\<rparr>)"
    using assms(1) p by (simp add: valid_datetime_def MINYEAR_def MAXYEAR_def)
  ultimately show ?thesis
    using p(1) by (simp add: toordinal_def)
qed

section \<open>The weekend adjustment\<close>

text \<open>
  Claim C3. For every date, \<open>adjust_for_weekend\<close> returns (it never raises): a Saturday
  (weekday 5) is moved forward by 2 days, a Sunday (weekday 6) by 1 day, both to the
  Monday that follows with the time of day kept, and any other day is returned unchanged.
  So the result is never a Saturday or a Sunday.
\<close>

theorem adjust_for_weekend_shift:
  assumes "valid_datetime dt"
  shows "\<exists>dt'. adjust_for_weekend dt = Inr dt' \<and> valid_datetime dt' \<and>
           toordinal dt' =
             toordinal dt + (if weekday dt = 5 then 2 else if weekday dt = 6 then 1 else 0) \<and>
           hour dt' = hour dt \<and> minute dt' = minute dt \<and> second dt' = second dt \<and>
           microsecond dt' = microsecond dt \<and>
           (if weekday dt = 5 \<or> weekday dt = 6 then weekday dt' = 0 else dt' = dt) \<and>
           weekday dt' \<noteq> 5 \<and> weekday dt' \<noteq> 6"
proof -
  note r = toordinal_range [OF assms]
  consider (sat) "weekday dt = 5" | (sun) "weekday dt = 6"
    | (other) "weekday dt \<noteq> 5" "weekday dt \<noteq> 6" by blast
  then show ?thesis
  proof cases
    case sat
    then have "toordinal dt + 2 \<le> MAXORDINAL"
      using r by (simp add: weekday_def MAXORDINAL_def) presburger
    with r(1) add_days_in_range [OF assms, of 2] obtain dt' where
      d: "add_days dt 2 = Inr dt'" "toordinal dt' = toordinal dt + 2" "valid_datetime dt'"
        "hour dt' = hour dt" "minute dt' = minute dt" "second dt' = second dt"
        "microsecond dt' = microsecond dt"
      by auto
    have "weekday dt' = 0" using sat d(2) by (simp add: weekday_def) presburger
    with d sat show ?thesis by (simp add: adjust_for_weekend_def)
  next
    case sun
    then have "toordinal dt + 1 \<le> MAXORDINAL"
      using r by (simp add: weekday_def MAXORDINAL_def) presburger
    with r(1) add_days_in_range [OF assms, of 1] obtain dt' where
      d: "add_days dt 1 = Inr dt'" "toordinal dt' = toordinal dt + 1" "valid_datetime dt'"
        "hour dt' = hour dt" "minute dt' = minute dt" "second dt' = second dt"
        "microsecond dt' = microsecond dt"
      by auto
    have "weekday dt' = 0" using sun d(2) by (simp add: weekday_def) presburger
    with d sun show ?thesis by (simp add: adjust_for_weekend_def)
  next
    case other
    with assms show ?thesis by (simp add: adjust_for_weekend_def)
  qed
qed


theorem adjust_for_weekend_shift_witness:
  "valid_datetime \<lparr>year = 2024, month = 6, day = 15, hour = 0, minute = 0, second = 0,
                    microsecond = 0\<rparr>
   \<and> weekday \<lparr>year = 2024, month = 6, day = 15, hour = 0, minute = 0, second = 0,
                microsecond = 0\<rparr> = 5
   \<and> adjust_for_weekend \<lparr>year = 2024, month = 6, day = 15, hour = 0, minute = 0, second = 0,
                           microsecond = 0\<rparr>
       = Inr \<lparr>year = 2024, month = 6, day = 17, hour = 0, minute = 0, second = 0,
               microsecond = 0\<rparr>"
proof -
  let ?d = "\<lparr>year = 2024, month = 6, day = 15, hour = 0, minute = 0, second = 0,
             microsecond = 0\<rparr>"
  have v: "valid_datetime ?d" by code_simp
  have e: "weekday ?d = 5 \<and> adjust_for_weekend ?d
             = Inr \<lparr>year = 2024, month = 6, day = 17, hour = 0, minute = 0, second = 0,
                     microsecond = 0\<rparr>"
    by code_simp
  from adjust_for_weekend_shift [OF v] v e show ?thesis by simp
qed

section \<open>Birthdays of a record\<close>

text \<open>
  Claim C10. When \<open>add_birthday\<close> raises, the record is as it was before the call, its
  birthday (or the absence of one) included: the only exception comes from the constructor
  \<open>Birthday\<close>, which runs before the assignment.
\<close>

theorem add_birthday_failure_keeps_record:
  "add_birthday r raw = (Some e, r') \<Longrightarrow>
     r' = r \<and> birthday r' = birthday r \<and> Birthday_init raw = Inl e"
  by (auto simp: add_birthday_def split: sum.splits)

theorem add_birthday_failure_keeps_record_witness:
  "add_birthday
     \<lparr>name = \<lparr>name_value = ''Alice''\<rparr>,
      phones = [\<lparr>phone_id = 0, phone_value = ''0123456789''\<rparr>],
      birthday = Some \<lparr>birthday_value = \<lparr>year = 1990, month = 6, day = 12, hour = 0,
                   minute = 0, second = 0, microsecond = 0\<rparr>\<rparr>\<rparr> ''31.02.2000''
     = (Some (ValueError ''Invalid date format. Use DD.MM.YYYY''),
        \<lparr>name = \<lparr>name_value = ''Alice''\<rparr>,
         phones = [\<lparr>phone_id = 0, phone_value = ''0123456789''\<rparr>],
         birthday = Some \<lparr>birthday_value = \<lparr>year = 1990, month = 6, day = 12, hour = 0,
                      minute = 0, second = 0, microsecond = 0\<rparr>\<rparr>\<rparr>)
   \<and> Birthday_init ''31.02.2000'' = Inl (ValueError ''Invalid date format. Use DD.MM.YYYY'')
   \<and> Birthday_init ''12.06.1990''
       = Inr \<lparr>birthday_value = \<lparr>year = 1990, month = 6, day = 12, hour = 0,
               minute = 0, second = 0, microsecond = 0\<rparr>\<rparr>"
proof -
  let ?r = "\<lparr>name = \<lparr>name_value = ''Alice''\<rparr>,
      phones = [\<lparr>phone_id = 0, phone_value = ''0123456789''\<rparr>],
      birthday = Some \<lparr>birthday_value = \<lparr>year = 1990, month = 6, day = 12, hour = 0,
                   minute = 0, second = 0, microsecond = 0\<rparr>\<rparr>\<rparr>"
  have h: "add_birthday ?r ''31.02.2000''
     = (Some (ValueError ''Invalid date format. Use DD.MM.YYYY''), ?r)"
    by code_simp
  have b: "Birthday_init ''12.06.1990''
       = Inr \<lparr>birthday_value = \<lparr>year = 1990, month = 6, day = 12, hour = 0,
               minute = 0, second = 0, microsecond = 0\<rparr>\<rparr>"
    by code_simp
  from add_birthday_failure_keeps_record [OF h] h b show ?thesis by simp
qed

section \<open>Adding a phone twice\<close>

text \<open>
  Claim C1. The claim asks that a second \<open>add_phone\<close> with the same digit string raises
  and leaves one phone. \<open>add_phone\<close> tests \<open>phone not in self.phones\<close> with the \<open>Phone\<close>
  object it has just created, and \<open>Phone\<close> objects are compared by identity, so the test
  never fails: on a new record, adding \<open>0123456789\<close> twice returns normally both times and
  leaves two phones with that digit string. At the prompt, the line \<open>add Alice 0123456789\<close>
  entered twice prints \<open>Contact added.\<close> and then \<open>Contact updated.\<close>, and Alice has
  the number twice.
\<close>

theorem add_phone_twice_keeps_both:
  "(case add_phone (Record_init ''Alice'') ''0123456789'' 0 of
      (res1, r1, id1) \<Rightarrow>
        (case add_phone r1 ''0123456789'' id1 of
           (res2, r2, id2) \<Rightarrow>
             res1 = None \<and> res2 = None \<and>
             map phone_value (phones r2) = [''0123456789'', ''0123456789''])) \<and>
   (case main_step today ''add Alice 0123456789''
           \<lparr>book = [], printed = [], next_phone_id = 0, pickled = None\<rparr> of
      (o1, w1) \<Rightarrow>
        (case main_step today ''add Alice 0123456789'' w1 of
           (o2, w2) \<Rightarrow>
             printed w2 = [''Contact added.'', ''Contact updated.''] \<and>
             map (\<lambda>kv. (fst kv, map phone_value (phones (snd kv)))) (book w2)
               = [(''Alice'', [''0123456789'', ''0123456789''])]))"
  by code_simp

section \<open>Commands with too few arguments\<close>

lemma digit_char_numerals:
  "digit_char 0 = CHR ''0''" "digit_char 1 = CHR ''1''" "digit_char 2 = CHR ''2''"
  "digit_char 3 = CHR ''3''" "digit_char 4 = CHR ''4''" "digit_char 5 = CHR ''5''"
  "digit_char 6 = CHR ''6''" "digit_char 7 = CHR ''7''" "digit_char 8 = CHR ''8''"
  "digit_char 9 = CHR ''9''" "digit_char (Suc 0) = CHR ''1''"
  by code_simp+

text \<open>
  Claim C7. The claim asks for the message about insufficient arguments, printed to the
  user. With one argument, the unpacking \<open>name, phone, *_ = args\<close> of \<open>add_contact\<close> raises
  a \<open>ValueError\<close>, not the \<open>IndexError\<close> that message is attached to, so the decorated
  function returns the text of the \<open>ValueError\<close>; and the main loop drops what the
  function returns, so the line \<open>add Alice\<close> prints nothing at all.
\<close>

theorem short_add_prints_nothing:
  "input_error add_contact [''Alice''] w
     = (Inr (Some ''ValueError: not enough values to unpack (expected at least 2, got 1)''), w)
   \<and> main_step today ''add Alice'' w = (Continue, w)"
proof -
  have a: "input_error add_contact [''Alice''] w
     = (Inr (Some ''ValueError: not enough values to unpack (expected at least 2, got 1)''), w)"
    by (simp add: input_error_def add_contact_def unpack_message_def str_nat.simps
        digit_char_numerals)
  have s: "str_split ''add Alice'' = [''add'', ''Alice'']"
    by code_simp
  have l: "str_lower (str_strip ''add'') = ''add''"
    by code_simp
  show ?thesis
    using a by (simp add: main_step_def s l call_command_def)
qed

section \<open>The birthday query\<close>

lemma replace_year_feb29:
  "month dt = 2 \<Longrightarrow> day dt = 29 \<Longrightarrow> \<not> is_leap y \<Longrightarrow> \<exists>e. replace_year dt y = Inl e"
  by (simp add: replace_year_def datetime_init_def days_in_month_def DAYS_IN_MONTH_def)

lemma upcoming_loop_feb29:
  assumes "birthday r = Some b" "month (birthday_value b) = 2" "day (birthday_value b) = 29"
    and "\<not> is_leap (year today)"
  shows "r \<in> set rs \<Longrightarrow> \<exists>e. upcoming_loop today next_week rs acc = Inl e"
proof (induction rs arbitrary: acc)
  case Nil
  then show ?case by simp
next
  case (Cons x rs)
  show ?case
  proof (cases "x = r")
    case True
    from replace_year_feb29 [OF assms(2,3,4)] obtain e
      where "replace_year (birthday_value b) (year today) = Inl e" by blast
    with True assms(1) show ?thesis by simp
  next
    case False
    with Cons.prems have "r \<in> set rs" by simp
    from Cons.IH [OF this] show ?thesis
      by (simp split: option.split sum.split)
  qed
qed

text \<open>
  Claim C9. If some record of the address book has a birthday on 29 February and the year
  of \<open>today\<close> is not a leap year, \<open>get_upcoming_birthdays\<close> raises instead of returning
  a list, whatever the other records are: \<open>replace(year=today.year)\<close> is not a date.
\<close>

theorem feb29_birthday_query_raises:
  assumes "(nm, r) \<in> set data" "birthday r = Some b"
    and "month (birthday_value b) = 2" "day (birthday_value b) = 29"
    and "\<not> is_leap (year today)"
  shows "\<exists>e. get_upcoming_birthdays data today days = Inl e"
proof (cases "add_days today days")
  case (Inl e)
  then show ?thesis by (simp add: get_upcoming_birthdays_def)
next
  case (Inr next_week)
  from assms(1) have "r \<in> set (map snd data)" by force
  from upcoming_loop_feb29 [OF assms(2,3,4,5) this] Inr show ?thesis
    by (simp add: get_upcoming_birthdays_def)
qed

theorem feb29_birthday_query_raises_witness:
  "get_upcoming_birthdays
     [(''Ann'', \<lparr>name = \<lparr>name_value = ''Ann''\<rparr>, phones = [],
                birthday = Some \<lparr>birthday_value = \<lparr>year = 2000, month = 2, day = 29, hour = 0,
                  minute = 0, second = 0, microsecond = 0\<rparr>\<rparr>\<rparr>)]
     \<lparr>year = 2023, month = 3, day = 1, hour = 12, minute = 0, second = 0, microsecond = 0\<rparr> 7
   = Inl (ValueError ''day is out of range for month'')"
proof -
  let ?b = "\<lparr>birthday_value = \<lparr>year = 2000, month = 2, day = 29, hour = 0,
                  minute = 0, second = 0, microsecond = 0\<rparr>\<rparr>"
  let ?r = "\<lparr>name = \<lparr>name_value = ''Ann''\<rparr>, phones = [], birthday = Some ?b\<rparr>"
  let ?today = "\<lparr>year = 2023, month = 3, day = 1, hour = 12, minute = 0, second = 0,
                  microsecond = 0\<rparr>"
  have 1: "(''Ann'', ?r) \<in> set [(''Ann'', ?r)]" by simp
  have 2: "birthday ?r = Some ?b" by simp
  have 3: "month (birthday_value ?b) = 2" "day (birthday_value ?b) = 29" by simp_all
  have 4: "\<not> is_leap (year ?today)" by (simp add: is_leap_def)
  have e: "get_upcoming_birthdays [(''Ann'', ?r)] ?today 7
             = Inl (ValueError ''day is out of range for month'')"
    by code_simp
  from feb29_birthday_query_raises [OF 1 2 3 4, of 7] e show ?thesis by simp
qed

text \<open>
  Claim C2. The claim asks that every record with a birthday is projected onto the year of
  \<open>today\<close> and included exactly when its adjusted date lies in the range, a date landing
  on today included. Two inputs where the query does otherwise. With a record born on
  29 February in the book and \<open>today\<close> in 2023, the query raises, so the record born on
  3 March, whose adjusted date is two days ahead, is not reported. And \<open>today\<close> is
  \<open>datetime.today()\<close>, which carries the time of day, while a projected birthday is at
  midnight: on 12 June 2024 at noon a birthday on 12 June is already before \<open>today\<close>, is
  rolled to 2025 and is left out.
\<close>

theorem upcoming_birthdays_failures:
  "get_upcoming_birthdays
     [(''Ann'', \<lparr>name = \<lparr>name_value = ''Ann''\<rparr>, phones = [],
                birthday = Some \<lparr>birthday_value = \<lparr>year = 2000, month = 2, day = 29, hour = 0,
                  minute = 0, second = 0, microsecond = 0\<rparr>\<rparr>\<rparr>),
      (''Bob'', \<lparr>name = \<lparr>name_value = ''Bob''\<rparr>, phones = [],
                birthday = Some \<lparr>birthday_value = \<lparr>year = 1990, month = 3, day = 3, hour = 0,
                  minute = 0, second = 0, microsecond = 0\<rparr>\<rparr>\<rparr>)]
     \<lparr>year = 2023, month = 3, day = 1, hour = 0, minute = 0, second = 0, microsecond = 0\<rparr> 7
   = Inl (ValueError ''day is out of range for month'')
   \<and> get_upcoming_birthdays
     [(''Bob'', \<lparr>name = \<lparr>name_value = ''Bob''\<rparr>, phones = [],
                birthday = Some \<lparr>birthday_value = \<lparr>year = 1990, month = 6, day = 12, hour = 0,
                  minute = 0, second = 0, microsecond = 0\<rparr>\<rparr>\<rparr>)]
     \<lparr>year = 2024, month = 6, day = 12, hour = 12, minute = 0, second = 0, microsecond = 0\<rparr> 7
   = Inr []"
  by code_simp

section \<open>Phone numbers\<close>

lemma decimal_is_digit: "is_decimal_char ch \<Longrightarrow> isdigit_char ch"
  by (simp add: isdigit_char_def)

text \<open>
  Claim C4. The claim asks that \<open>Phone\<close> is constructed from the strings of exactly 10
  decimal digits and from no other string. The guard of \<open>Phone\<close> is \<open>value.isdigit()\<close>,
  and \<open>str.isdigit\<close> also holds of digits that are not decimal digits: the string of ten
  superscript twos is no string of decimal digits, yet a \<open>Phone\<close> is made of it, and the
  line \<open>add Alice\<close> followed by that string stores it as Alice's phone number.
\<close>

theorem Phone_init_superscript_digits:
  "Phone_init [CHR 0xB2, CHR 0xB2, CHR 0xB2, CHR 0xB2, CHR 0xB2, CHR 0xB2, CHR 0xB2, CHR 0xB2,
               CHR 0xB2, CHR 0xB2] 0
     = Inr \<lparr>phone_id = 0,
            phone_value = [CHR 0xB2, CHR 0xB2, CHR 0xB2, CHR 0xB2, CHR 0xB2, CHR 0xB2, CHR 0xB2,
                           CHR 0xB2, CHR 0xB2, CHR 0xB2]\<rparr>
   \<and> \<not> is_decimal_char (CHR 0xB2)
   \<and> (case main_step today
              (''add Alice '' @ [CHR 0xB2, CHR 0xB2, CHR 0xB2, CHR 0xB2, CHR 0xB2, CHR 0xB2,
                                 CHR 0xB2, CHR 0xB2, CHR 0xB2, CHR 0xB2])
              \<lparr>book = [], printed = [], next_phone_id = 0, pickled = None\<rparr> of
         (o1, w1) \<Rightarrow>
           printed w1 = [''Contact added.''] \<and>
           map (\<lambda>kv. (fst kv, map phone_value (phones (snd kv)))) (book w1)
             = [(''Alice'', [[CHR 0xB2, CHR 0xB2, CHR 0xB2, CHR 0xB2, CHR 0xB2, CHR 0xB2,
                              CHR 0xB2, CHR 0xB2, CHR 0xB2, CHR 0xB2]])])"
  by code_simp

theorem Phone_init_superscript_digits_witness:
  "isdigit [CHR 0xB2, CHR 0xB2, CHR 0xB2, CHR 0xB2, CHR 0xB2, CHR 0xB2, CHR 0xB2, CHR 0xB2,
            CHR 0xB2, CHR 0xB2]
   \<and> length [CHR 0xB2, CHR 0xB2, CHR 0xB2, CHR 0xB2, CHR 0xB2, CHR 0xB2, CHR 0xB2, CHR 0xB2,
              CHR 0xB2, CHR 0xB2] = 10
   \<and> Phone_init [CHR 0xB2, CHR 0xB2, CHR 0xB2, CHR 0xB2, CHR 0xB2, CHR 0xB2, CHR 0xB2,
                 CHR 0xB2, CHR 0xB2, CHR 0xB2] 0
       = Inr \<lparr>phone_id = 0,
              phone_value = [CHR 0xB2, CHR 0xB2, CHR 0xB2, CHR 0xB2, CHR 0xB2, CHR 0xB2,
                             CHR 0xB2, CHR 0xB2, CHR 0xB2, CHR 0xB2]\<rparr>"
proof -
  have d: "isdigit [CHR 0xB2, CHR 0xB2, CHR 0xB2, CHR 0xB2, CHR 0xB2, CHR 0xB2, CHR 0xB2,
                    CHR 0xB2, CHR 0xB2, CHR 0xB2]"
    by code_simp
  from Phone_init_superscript_digits d show ?thesis by simp
qed

text \<open>
  What \<open>Phone\<close> does on every string: it is constructed exactly from the strings of
  length 10 whose characters all satisfy \<open>str.isdigit\<close>, the strings of 10 decimal digits
  among them, and every other string raises the \<open>ValueError\<close>.
\<close>

lemma Phone_init_accepts:
  "Phone_init v n =
     (if length v = 10 \<and> list_all isdigit_char v
      then Inr \<lparr>phone_id = n, phone_value = v\<rparr>
      else Inl (ValueError ''Phone number must contain exactly 10 digits.''))
   \<and> (list_all is_decimal_char v \<longrightarrow> list_all isdigit_char v)"
  by (auto simp: Phone_init_def isdigit_def list_all_iff decimal_is_digit)

section \<open>Editing the phones of a record\<close>

lemma find_phone_present:
  "find_phone r s \<noteq> None \<longleftrightarrow> s \<in> set (map phone_value (phones r))"
  by (auto simp: find_phone_def find_None_iff)

lemma remove1_found:
  "List.find (\<lambda>u. phone_value u = s) ps = Some u \<Longrightarrow>
     map phone_value (remove1 u ps) = remove1 s (map phone_value ps)"
proof (induction ps)
  case Nil
  then show ?case by simp
next
  case (Cons p ps)
  show ?case
  proof (cases "phone_value p = s")
    case True
    with Cons.prems show ?thesis by simp
  next
    case False
    with Cons.prems have f: "List.find (\<lambda>u. phone_value u = s) ps = Some u" by simp
    then have "phone_value u = s" by (auto simp: find_Some_iff)
    with False have "p \<noteq> u" by auto
    with False Cons.IH [OF f] show ?thesis by simp
  qed
qed

lemma remove_phone_values:
  "remove_phone r s n = (None, r', n') \<Longrightarrow>
     map phone_value (phones r') = remove1 s (map phone_value (phones r))"
proof (cases "List.find (\<lambda>u. phone_value u = s) (phones r)")
  case None
  then have "s \<notin> set (map phone_value (phones r))"
    by (auto simp: find_None_iff)
  then have "remove1 s (map phone_value (phones r)) = map phone_value (phones r)"
    by (rule remove1_idem)
  moreover assume "remove_phone r s n = (None, r', n')"
  with None have "r' = r"
    by (auto simp: remove_phone_def Phone_init_def split: if_splits)
  ultimately show ?thesis by simp
next
  case (Some u)
  assume "remove_phone r s n = (None, r', n')"
  with Some have "phones r' = remove1 u (phones r)"
    by (auto simp: remove_phone_def Phone_init_def split: if_splits)
  with remove1_found [OF Some] show ?thesis by simp
qed

lemma add_phone_values:
  "add_phone r s n = (None, r', n') \<Longrightarrow>
     map phone_value (phones r') = map phone_value (phones r) @ [s]"
  by (auto simp: add_phone_def Phone_init_def split: if_splits)

lemma remove1_single:
  "length (filter (\<lambda>x. x = s) xs) = 1 \<Longrightarrow> s \<notin> set (remove1 s xs)"
proof (induction xs)
  case Nil
  then show ?case by simp
next
  case (Cons x xs)
  show ?case
  proof (cases "x = s")
    case True
    with Cons.prems have "filter (\<lambda>x. x = s) xs = []" by simp
    then have "s \<notin> set xs" by (auto simp: filter_empty_conv)
    with True show ?thesis by simp
  next
    case False
    with Cons show ?thesis by simp
  qed
qed

lemma phone_count_values:
  "phone_count r s = length (filter (\<lambda>x. x = s) (map phone_value (phones r)))"
  by (simp add: phone_count_def filter_map comp_def)

lemma edit_phone_values:
  assumes "edit_phone r old new n = (None, r', n')"
  shows "map phone_value (phones r') = remove1 old (map phone_value (phones r)) @ [new]"
proof -
  from assms obtain r1 n1 where
    1: "remove_phone r old n = (None, r1, n1)" and 2: "add_phone r1 new n1 = (None, r', n')"
    by (auto simp: edit_phone_def split: option.splits prod.splits)
  from remove_phone_values [OF 1] add_phone_values [OF 2] show ?thesis by simp
qed

text \<open>
  Claim C5, amended. \<open>edit_phone\<close> raises \<open>ValueError\<close> for any \<open>new\<close> when no phone has
  the digit string \<open>old\<close>, the record unchanged. When it returns normally, \<open>old\<close> was
  present, the digit strings of the record are the former ones with the first \<open>old\<close>
  removed and \<open>new\<close> added at the end, so \<open>new\<close> is present; and \<open>old\<close> is absent provided
  that \<open>old\<close> differs from \<open>new\<close> and was on the record once.
\<close>

theorem edit_phone_effect:
  "(find_phone r old = None \<longrightarrow>
      edit_phone r old new n = (Some (ValueError ''Phone number not found''), r, n)) \<and>
   (edit_phone r old new n = (None, r', n') \<longrightarrow>
      find_phone r old \<noteq> None \<and> find_phone r' new \<noteq> None \<and>
      map phone_value (phones r') = remove1 old (map phone_value (phones r)) @ [new] \<and>
      (old \<noteq> new \<and> phone_count r old = 1 \<longrightarrow> find_phone r' old = None))"
proof (intro conjI impI)
  assume "find_phone r old = None"
  then show "edit_phone r old new n = (Some (ValueError ''Phone number not found''), r, n)"
    by (simp add: edit_phone_def)
next
  assume e: "edit_phone r old new n = (None, r', n')"
  then show "find_phone r old \<noteq> None"
    by (auto simp: edit_phone_def split: option.splits)
  note v = edit_phone_values [OF e]
  show "map phone_value (phones r') = remove1 old (map phone_value (phones r)) @ [new]"
    by (rule v)
  show "find_phone r' new \<noteq> None"
    unfolding find_phone_present v by simp
  assume "old \<noteq> new \<and> phone_count r old = 1"
  then have "old \<noteq> new" and c: "length (filter (\<lambda>x. x = old) (map phone_value (phones r))) = 1"
    unfolding phone_count_values by simp_all
  from c have "old \<notin> set (remove1 old (map phone_value (phones r)))"
    by (rule remove1_single)
  with \<open>old \<noteq> new\<close> have "old \<noteq> new" and "old \<notin> set (remove1 old (map phone_value (phones r)))"
    by simp_all
  then have "old \<notin> set (map phone_value (phones r'))"
    unfolding v by simp
  then show "find_phone r' old = None"
    using find_phone_present [of r' old] by simp
qed

theorem edit_phone_effect_witness:
  "edit_phone \<lparr>name = \<lparr>name_value = ''Bob''\<rparr>,
               phones = [\<lparr>phone_id = 0, phone_value = ''1111111111''\<rparr>],
               birthday = None\<rparr> ''1111111111'' ''2222222222'' 1
     = (None, \<lparr>name = \<lparr>name_value = ''Bob''\<rparr>,
                phones = [\<lparr>phone_id = 2, phone_value = ''2222222222''\<rparr>],
                birthday = None\<rparr>, 3)
   \<and> find_phone \<lparr>name = \<lparr>name_value = ''Bob''\<rparr>,
                  phones = [\<lparr>phone_id = 2, phone_value = ''2222222222''\<rparr>],
                  birthday = None\<rparr> ''1111111111'' = None
   \<and> edit_phone \<lparr>name = \<lparr>name_value = ''Bob''\<rparr>,
               phones = [\<lparr>phone_id = 0, phone_value = ''1111111111''\<rparr>],
               birthday = None\<rparr> ''3333333333'' ''2222222222'' 1
     = (Some (ValueError ''Phone number not found''),
        \<lparr>name = \<lparr>name_value = ''Bob''\<rparr>,
               phones = [\<lparr>phone_id = 0, phone_value = ''1111111111''\<rparr>],
               birthday = None\<rparr>, 1)"
proof -
  let ?r = "\<lparr>name = \<lparr>name_value = ''Bob''\<rparr>,
               phones = [\<lparr>phone_id = 0, phone_value = ''1111111111''\<rparr>],
               birthday = None\<rparr>"
  let ?r' = "\<lparr>name = \<lparr>name_value = ''Bob''\<rparr>,
                phones = [\<lparr>phone_id = 2, phone_value = ''2222222222''\<rparr>],
                birthday = None\<rparr>"
  have e: "edit_phone ?r ''1111111111'' ''2222222222'' 1 = (None, ?r', 3)" by code_simp
  have c: "''1111111111'' \<noteq> ''2222222222'' \<and> phone_count ?r ''1111111111'' = 1"
    by (simp add: phone_count_def)
  have f: "find_phone ?r ''3333333333'' = None" by (simp add: find_phone_def)
  from edit_phone_effect [of ?r "''1111111111''" "''2222222222''" 1 ?r' 3]
    edit_phone_effect [of ?r "''3333333333''" "''2222222222''" 1 ?r' 3] e c f
  show ?thesis by simp
qed

text \<open>
  The claim as stated fails when \<open>old\<close> and \<open>new\<close> are the same digit string: the edit
  succeeds and the string is still on the record.
\<close>

theorem edit_phone_same_number:
  "(case edit_phone \<lparr>name = \<lparr>name_value = ''Bob''\<rparr>,
                     phones = [\<lparr>phone_id = 0, phone_value = ''1111111111''\<rparr>],
                     birthday = None\<rparr> ''1111111111'' ''1111111111'' 1 of
      (res, r', n') \<Rightarrow> res = None \<and> find_phone r' ''1111111111'' \<noteq> None)"
  by code_simp

text \<open>
  Claim C8, amended. When \<open>old\<close> is on the record (a well-formed phone, as every stored
  phone is) and \<open>new\<close> is malformed, \<open>edit_phone\<close> raises the \<open>ValueError\<close> of \<open>Phone\<close>
  after it has removed the first phone with digit string \<open>old\<close>: the edit is not atomic,
  and a record that held \<open>old\<close> once no longer contains it.
\<close>

theorem edit_phone_failed_add:
  assumes "find_phone r old \<noteq> None" and "isdigit old \<and> length old = 10"
    and "\<not> (isdigit new \<and> length new = 10)"
  shows "\<exists>r' n'. edit_phone r old new n
             = (Some (ValueError ''Phone number must contain exactly 10 digits.''), r', n') \<and>
           map phone_value (phones r') = remove1 old (map phone_value (phones r)) \<and>
           (phone_count r old = 1 \<longrightarrow> find_phone r' old = None)"
proof -
  from assms(1) obtain p where f: "find_phone r old = Some p" by blast
  obtain res r1 n1 where rm: "remove_phone r old n = (res, r1, n1)"
    by (cases "remove_phone r old n")
  with assms(2) have res: "res = None"
    by (auto simp: remove_phone_def Phone_init_def split: option.splits)
  note v = remove_phone_values [OF rm [unfolded res]]
  have ad: "add_phone r1 new n1
      = (Some (ValueError ''Phone number must contain exactly 10 digits.''), r1, n1)"
    using assms(3) by (auto simp: add_phone_def Phone_init_def)
  have "edit_phone r old new n
      = (Some (ValueError ''Phone number must contain exactly 10 digits.''), r1, n1)"
    using f rm res ad by (simp add: edit_phone_def)
  moreover have "phone_count r old = 1 \<longrightarrow> find_phone r1 old = None"
  proof
    assume "phone_count r old = 1"
    then have "old \<notin> set (remove1 old (map phone_value (phones r)))"
      unfolding phone_count_values by (rule remove1_single)
    then show "find_phone r1 old = None"
      using find_phone_present [of r1 old] v by simp
  qed
  ultimately show ?thesis using v by blast
qed

theorem edit_phone_failed_add_witness:
  "edit_phone \<lparr>name = \<lparr>name_value = ''Bob''\<rparr>,
               phones = [\<lparr>phone_id = 0, phone_value = ''1111111111''\<rparr>],
               birthday = None\<rparr> ''1111111111'' ''abc'' 1
     = (Some (ValueError ''Phone number must contain exactly 10 digits.''),
        \<lparr>name = \<lparr>name_value = ''Bob''\<rparr>, phones = [], birthday = None\<rparr>, 2)
   \<and> find_phone \<lparr>name = \<lparr>name_value = ''Bob''\<rparr>, phones = [], birthday = None\<rparr>
        ''1111111111'' = None"
proof -
  let ?r = "\<lparr>name = \<lparr>name_value = ''Bob''\<rparr>,
               phones = [\<lparr>phone_id = 0, phone_value = ''1111111111''\<rparr>],
               birthday = None\<rparr>"
  have 1: "find_phone ?r ''1111111111'' \<noteq> None" by (simp add: find_phone_def)
  have 2: "isdigit ''1111111111'' \<and> length ''1111111111'' = 10" by code_simp
  have 3: "\<not> (isdigit ''abc'' \<and> length ''abc'' = 10)" by simp
  have e: "edit_phone ?r ''1111111111'' ''abc'' 1
     = (Some (ValueError ''Phone number must contain exactly 10 digits.''),
        \<lparr>name = \<lparr>name_value = ''Bob''\<rparr>, phones = [], birthday = None\<rparr>, 2)"
    by code_simp
  have f: "find_phone \<lparr>name = \<lparr>name_value = ''Bob''\<rparr>, phones = [], birthday = None\<rparr>
        ''1111111111'' = None" by (simp add: find_phone_def)
  from edit_phone_failed_add [OF 1 2 3, of 1] e f show ?thesis by simp
qed

text \<open>
  The claim as stated fails on a record that holds \<open>old\<close> twice: the failed edit removes
  one of the two and \<open>old\<close> is still on the record.
\<close>

theorem edit_phone_duplicate_survives:
  "(case edit_phone \<lparr>name = \<lparr>name_value = ''Bob''\<rparr>,
                     phones = [\<lparr>phone_id = 0, phone_value = ''1111111111''\<rparr>,
                               \<lparr>phone_id = 1, phone_value = ''1111111111''\<rparr>],
                     birthday = None\<rparr> ''1111111111'' ''abc'' 2 of
      (res, r', n') \<Rightarrow>
        res = Some (ValueError ''Phone number must contain exactly 10 digits.'') \<and>
        find_phone r' ''1111111111'' \<noteq> None)"
  by code_simp

section \<open>A birthday read and printed\<close>

lemma digit_val_numerals:
  "digit_val (CHR ''0'') = 0" "digit_val (CHR ''1'') = 1" "digit_val (CHR ''2'') = 2"
  "digit_val (CHR ''3'') = 3" "digit_val (CHR ''4'') = 4" "digit_val (CHR ''5'') = 5"
  "digit_val (CHR ''6'') = 6" "digit_val (CHR ''7'') = 7" "digit_val (CHR ''8'') = 8"
  "digit_val (CHR ''9'') = 9"
  by code_simp+

lemma decimal_char_cases:
  assumes "is_decimal_char ch"
  shows "ch \<in> set ''0123456789''"
proof -
  define j where "j = (of_char ch :: nat) - 48"
  from assms have "48 \<le> (of_char ch :: nat)" "j \<le> 9"
    unfolding is_decimal_char_def j_def by linarith+
  then have "(of_char ch :: nat) = 48 + j" by (simp add: j_def)
  then have "char_of (of_char ch :: nat) = char_of (48 + j)" by simp
  then have c: "ch = digit_char j" by (simp add: digit_char_def)
  from \<open>j \<le> 9\<close> consider "j = 0" | "j = 1" | "j = 2" | "j = 3" | "j = 4" | "j = 5" | "j = 6"
    | "j = 7" | "j = 8" | "j = 9"
    by atomize_elim arith
  then show ?thesis
    unfolding c by cases (simp_all add: digit_char_numerals)
qed

lemma decimal_char_props:
  assumes "is_decimal_char ch"
  shows "0 \<le> digit_val ch" "digit_val ch \<le> 9" "ch \<noteq> CHR ''.''"
    "digit_char (nat (digit_val ch)) = ch"
  using decimal_char_cases [OF assms]
  by (auto simp: digit_val_numerals digit_char_numerals)

lemma match_d_two_digits:
  assumes "is_decimal_char a" "is_decimal_char b"
    and "1 \<le> 10 * digit_val a + digit_val b" "10 * digit_val a + digit_val b \<le> 31"
  shows "match_d [a, b] = Some (10 * digit_val a + digit_val b)"
proof -
  have cb: "char_between lo hi ch \<longleftrightarrow> digit_val lo \<le> digit_val ch \<and> digit_val ch \<le> digit_val hi"
    for lo hi ch by (auto simp: char_between_def digit_val_def)
  have eq: "ch = ch' \<longleftrightarrow> digit_val ch = digit_val ch'" for ch ch'
    by (auto simp: digit_val_def)
  note p = decimal_char_props [OF assms(1)] decimal_char_props [OF assms(2)]
  show ?thesis
    using p(1,2,5,6) assms(2,3,4)
    by (simp add: cb eq [of a] digit_val_numerals)
qed


lemma match_m_two_digits:
  assumes "is_decimal_char a" "is_decimal_char b"
    and "1 \<le> 10 * digit_val a + digit_val b" "10 * digit_val a + digit_val b \<le> 12"
  shows "match_m [a, b] = Some (10 * digit_val a + digit_val b)"
proof -
  have cb: "char_between lo hi ch \<longleftrightarrow> digit_val lo \<le> digit_val ch \<and> digit_val ch \<le> digit_val hi"
    for lo hi ch by (auto simp: char_between_def digit_val_def)
  have eq: "ch = ch' \<longleftrightarrow> digit_val ch = digit_val ch'" for ch ch'
    by (auto simp: digit_val_def)
  note p = decimal_char_props [OF assms(1)] decimal_char_props [OF assms(2)]
  show ?thesis
    using p(1,2,5,6) assms(2,3,4)
    by (simp add: cb eq [of a] digit_val_numerals)
qed

lemma zfill2_digits:
  assumes "is_decimal_char a" "is_decimal_char b"
  shows "zfill2 (10 * digit_val a + digit_val b) = [a, b]"
proof -
  note p = decimal_char_props [OF assms(1)] decimal_char_props [OF assms(2)]
  have "(10 * digit_val a + digit_val b) div 10 = digit_val a"
    using p(5,6) by (intro div_decomp) simp_all
  moreover have "(10 * digit_val a + digit_val b) mod 10 = digit_val b"
    using p(5,6) by (intro mod_decomp) simp_all
  moreover have "digit_val a mod 10 = digit_val a"
    using p(1,2) by simp
  ultimately show ?thesis
    using p(4,8) by (simp add: zfill2_def)
qed

lemma nat_div_decomp: "r < k \<Longrightarrow> (k * q + r) div k = (q::nat)"
  by simp

lemma nat_mod_decomp: "r < k \<Longrightarrow> (k * q + r) mod k = (r::nat)"
  by simp

lemma str_nat_four_digits:
  assumes "1 \<le> a" "a \<le> 9" "b \<le> 9" "c \<le> 9" "d \<le> 9"
  shows "str_nat (1000 * a + 100 * b + 10 * c + d)
           = [digit_char a, digit_char b, digit_char c, digit_char d]"
proof -
  let ?n = "1000 * a + 100 * b + 10 * c + d"
  have n: "?n = 10 * (100 * a + 10 * b + c) + d" by simp
  have 1: "?n div 10 = 100 * a + 10 * b + c" "?n mod 10 = d"
    unfolding n using assms(5) by (simp_all only: nat_div_decomp nat_mod_decomp)
  have m: "100 * a + 10 * b + c = 10 * (10 * a + b) + c" by simp
  have 2: "(100 * a + 10 * b + c) div 10 = 10 * a + b" "(100 * a + 10 * b + c) mod 10 = c"
    unfolding m using assms(4) by (simp_all only: nat_div_decomp nat_mod_decomp)
  have 3: "(10 * a + b) div 10 = a" "(10 * a + b) mod 10 = b"
    using assms(3) by (simp_all only: nat_div_decomp nat_mod_decomp)
  have big: "\<not> ?n < 10" "\<not> 100 * a + 10 * b + c < 10" "\<not> 10 * a + b < 10" "a < 10"
    using assms by linarith+
  have "str_nat a = [digit_char a]"
    using big(4) by (subst str_nat.simps) simp
  then have "str_nat (10 * a + b) = [digit_char a, digit_char b]"
    using 3 big(3) by (subst str_nat.simps) simp
  then have "str_nat (100 * a + 10 * b + c) = [digit_char a, digit_char b, digit_char c]"
    using 2 big(2) by (subst str_nat.simps) simp
  then show ?thesis
    using 1 big(1) by (subst str_nat.simps) simp
qed

lemma str_int_four_digits:
  assumes "is_decimal_char a" "is_decimal_char b" "is_decimal_char c" "is_decimal_char d"
    and "1000 \<le> 1000 * digit_val a + 100 * digit_val b + 10 * digit_val c + digit_val d"
  shows "str_int (1000 * digit_val a + 100 * digit_val b + 10 * digit_val c + digit_val d)
           = [a, b, c, d]"
proof -
  note p = decimal_char_props [OF assms(1)] decimal_char_props [OF assms(2)]
    decimal_char_props [OF assms(3)] decimal_char_props [OF assms(4)]
  let ?n = "1000 * digit_val a + 100 * digit_val b + 10 * digit_val c + digit_val d"
  have a1: "1 \<le> digit_val a" using assms(5) p(1,2,5,6,9,10,13,14) by linarith
  have "nat ?n = 1000 * nat (digit_val a) + 100 * nat (digit_val b) + 10 * nat (digit_val c)
                   + nat (digit_val d)"
    using p(1,5,9,13) by (simp add: nat_add_distrib nat_mult_distrib)
  moreover have "str_nat (1000 * nat (digit_val a) + 100 * nat (digit_val b)
                   + 10 * nat (digit_val c) + nat (digit_val d))
                 = [digit_char (nat (digit_val a)), digit_char (nat (digit_val b)),
                    digit_char (nat (digit_val c)), digit_char (nat (digit_val d))]"
    using a1 p(2,6,10,14) by (intro str_nat_four_digits) simp_all
  ultimately show ?thesis
    using assms(5) p(4,8,12,16) by (simp add: str_int_def)
qed

lemma DD_MM_YYYY_shape:
  assumes "DD_MM_YYYY s = Some dmy"
  obtains d1 d2 m1 m2 y1 y2 y3 y4 where
    "s = [d1, d2, CHR ''.'', m1, m2, CHR ''.'', y1, y2, y3, y4]"
    "is_decimal_char d1" "is_decimal_char d2" "is_decimal_char m1" "is_decimal_char m2"
    "is_decimal_char y1" "is_decimal_char y2" "is_decimal_char y3" "is_decimal_char y4"
    "dmy = (10 * digit_val d1 + digit_val d2, 10 * digit_val m1 + digit_val m2,
            1000 * digit_val y1 + 100 * digit_val y2 + 10 * digit_val y3 + digit_val y4)"
  using assms by (elim DD_MM_YYYY.elims) (auto split: if_splits)

text \<open>
  Claim C6. The claim asks that every string of the shape DD.MM.YYYY with valid calendar
  values is read and printed back unchanged. The string \<open>01.01.0999\<close> has that shape and
  names a day of the calendar, and \<open>Birthday\<close> is constructed from it, but it is printed as
  \<open>01.01.999\<close>: \<open>%Y\<close> is not zero filled. After \<open>add Alice 0123456789\<close> and
  \<open>add-birthday Alice 01.01.0999\<close>, the line \<open>show-birthday Alice\<close> prints the date with
  the three-digit year.
\<close>

theorem Birthday_short_year_not_round_trip:
  "DD_MM_YYYY ''01.01.0999'' = Some (1, 1, 999) \<and> valid_calendar_values (1, 1, 999) \<and>
   Birthday_init ''01.01.0999''
     = Inr \<lparr>birthday_value = \<lparr>year = 999, month = 1, day = 1, hour = 0, minute = 0,
             second = 0, microsecond = 0\<rparr>\<rparr> \<and>
   Birthday_str \<lparr>birthday_value = \<lparr>year = 999, month = 1, day = 1, hour = 0, minute = 0,
             second = 0, microsecond = 0\<rparr>\<rparr> = ''01.01.999'' \<and>
   (case main_step today ''add Alice 0123456789''
           \<lparr>book = [], printed = [], next_phone_id = 0, pickled = None\<rparr> of
      (o1, w1) \<Rightarrow>
        (case main_step today ''add-birthday Alice 01.01.0999'' w1 of
           (o2, w2) \<Rightarrow>
             (case main_step today ''show-birthday Alice'' w2 of
                (o3, w3) \<Rightarrow>
                  printed w3 = [''Contact added.'', ''Birthday for Alice added as 01.01.0999.'',
                                ''Alice'' @ [CHR 0x27] @ ''s birthday is on 01.01.999.''])))"
  by code_simp

text \<open>
  From the year 1000 on the round trip holds: a string of the shape DD.MM.YYYY with valid
  calendar values and a year of at least 1000 is read as that day and printed back as it
  was.
\<close>

lemma Birthday_round_trip_from_1000:
  assumes "DD_MM_YYYY s = Some dmy" and "valid_calendar_values dmy"
    and "1000 \<le> snd (snd dmy)"
  shows "\<exists>b. Birthday_init s = Inr b \<and> Birthday_str b = s \<and>
           (day (birthday_value b), month (birthday_value b), year (birthday_value b)) = dmy"
proof -
  from assms(1) obtain d1 d2 m1 m2 y1 y2 y3 y4 where
    s: "s = [d1, d2, CHR ''.'', m1, m2, CHR ''.'', y1, y2, y3, y4]"
    and dec: "is_decimal_char d1" "is_decimal_char d2" "is_decimal_char m1" "is_decimal_char m2"
      "is_decimal_char y1" "is_decimal_char y2" "is_decimal_char y3" "is_decimal_char y4"
    and dmy: "dmy = (10 * digit_val d1 + digit_val d2, 10 * digit_val m1 + digit_val m2,
            1000 * digit_val y1 + 100 * digit_val y2 + 10 * digit_val y3 + digit_val y4)"
    by (rule DD_MM_YYYY_shape)
  let ?d = "10 * digit_val d1 + digit_val d2"
  let ?m = "10 * digit_val m1 + digit_val m2"
  let ?y = "1000 * digit_val y1 + 100 * digit_val y2 + 10 * digit_val y3 + digit_val y4"
  from assms(2) have v: "MINYEAR \<le> ?y" "?y \<le> MAXYEAR" "1 \<le> ?m" "?m \<le> 12" "1 \<le> ?d"
    "?d \<le> days_in_month ?y ?m"
    by (simp_all add: valid_calendar_values_def dmy)
  from assms(3) have y1000: "1000 \<le> ?y" by (simp add: dmy)
  have "days_in_month ?y ?m \<le> 31"
  proof -
    from v(3,4) consider "?m = 1" | "?m = 2" | "?m = 3" | "?m = 4" | "?m = 5" | "?m = 6"
      | "?m = 7" | "?m = 8" | "?m = 9" | "?m = 10" | "?m = 11" | "?m = 12"
      by atomize_elim arith
    then show ?thesis
      by cases (simp_all add: days_in_month_def DAYS_IN_MONTH_def)
  qed
  with v(6) have d31: "?d \<le> 31" by linarith
  note nd = dec [THEN decimal_char_props(3)]
  have sp: "split_at (CHR ''.'') [] s = [[d1, d2], [m1, m2], [y1, y2, y3, y4]]"
    unfolding s using nd by simp
  have md: "match_d [d1, d2] = Some ?d"
    using dec(1,2) v(5) d31 by (rule match_d_two_digits)
  have mm: "match_m [m1, m2] = Some ?m"
    using dec(3,4) v(3,4) by (rule match_m_two_digits)
  have my: "match_Y [y1, y2, y3, y4] = Some ?y"
    using dec by simp
  let ?dt = "\<lparr>year = ?y, month = ?m, day = ?d, hour = 0, minute = 0, second = 0,
              microsecond = 0\<rparr>"
  have "datetime_init ?y ?m ?d 0 0 0 0 = Inr ?dt"
    using v by (simp add: datetime_init_def)
  then have p: "strptime_dmY s = Inr ?dt"
    by (simp add: strptime_dmY_def sp md mm my del: match_d.simps match_m.simps match_Y.simps)
  have f: "strftime_dmY ?dt = s"
    unfolding s strftime_dmY_def
    using zfill2_digits [OF dec(1,2)] zfill2_digits [OF dec(3,4)]
      str_int_four_digits [OF dec(5,6,7,8) y1000]
    by simp
  show ?thesis
    using p f by (simp add: Birthday_init_def Birthday_str_def dmy)
qed


end
